theory Spec2Isabelle
  imports Main
begin

section \<open>Strings\<close>

text \<open>
  A Python \<open>str\<close> is modelled as a \<open>string\<close> whose characters are the code points
  U+0000 .. U+00FF. On that range \<open>str.lower\<close>, \<open>str.strip\<close> and the regular
  expression class \<open>\d\<close> are exactly the functions below; code points beyond it
  are outside the model.
\<close>

definition is_upper :: "char \<Rightarrow> bool" where
  "is_upper c =
     (let n = (of_char c :: nat)
      in (65 \<le> n \<and> n \<le> 90) \<or> (192 \<le> n \<and> n \<le> 214) \<or> (216 \<le> n \<and> n \<le> 222))"

definition lower_char :: "char \<Rightarrow> char" where
  "lower_char c = (if is_upper c then char_of ((of_char c :: nat) + 32) else c)"

definition lower :: "string \<Rightarrow> string" where
  "lower s = map lower_char s"

definition is_space :: "char \<Rightarrow> bool" where
  "is_space c =
     (let n = (of_char c :: nat)
      in (9 \<le> n \<and> n \<le> 13) \<or> (28 \<le> n \<and> n \<le> 32) \<or> n = 133 \<or> n = 160)"

definition strip :: "string \<Rightarrow> string" where
  "strip s = rev (dropWhile is_space (rev (dropWhile is_space s)))"

definition startswith :: "string \<Rightarrow> string \<Rightarrow> bool" where
  "startswith s p = (take (length p) s = p)"

definition endswith :: "string \<Rightarrow> string \<Rightarrow> bool" where
  "endswith s p = (length p \<le> length s \<and> drop (length s - length p) s = p)"

definition is_digit :: "char \<Rightarrow> bool" where
  "is_digit c = (let n = (of_char c :: nat) in 48 \<le> n \<and> n \<le> 57)"

text \<open>
  \<open>re.sub(r'^.*://', '', url)\<close>: the pattern is anchored at the start of the string,
  \<open>.\<close> matches every character but the newline, and \<open>.*\<close> is greedy, so the match
  is the longest prefix without a newline that ends in \<open>://\<close>; the lengths are tried
  from the longest down. Without a match the string is returned as it is.
\<close>

definition scheme_match :: "string \<Rightarrow> nat \<Rightarrow> bool" where
  "scheme_match s n =
     (3 \<le> n \<and> CHR 0x0A \<notin> set (take (n - 3) s) \<and> drop (n - 3) (take n s) = ''://'')"

definition sub_scheme :: "string \<Rightarrow> string" where
  "sub_scheme s =
     (case filter (scheme_match s) (rev [0..<Suc (length s)]) of
        [] \<Rightarrow> s
      | n # _ \<Rightarrow> drop n s)"

text \<open>
  \<open>re.match(r'^\d{1,3}(\.\d{1,3}){3}$', url)\<close>: four groups of one to three digits
  separated by dots. \<open>$\<close> matches at the end of the string and also just before a
  newline that ends the string.
\<close>

fun split_dots :: "string \<Rightarrow> string list" where
  "split_dots [] = [[]]"
| "split_dots (c # cs) =
     (if c = CHR ''.'' then [] # split_dots cs
      else (case split_dots cs of
              [] \<Rightarrow> [[c]]
            | g # gs \<Rightarrow> (c # g) # gs))"

definition digits_1_3 :: "string \<Rightarrow> bool" where
  "digits_1_3 g = (1 \<le> length g \<and> length g \<le> 3 \<and> list_all is_digit g)"

definition dotted_quad :: "string \<Rightarrow> bool" where
  "dotted_quad s = (let gs = split_dots s in length gs = 4 \<and> list_all digits_1_3 gs)"

definition match_ip :: "string \<Rightarrow> bool" where
  "match_ip s =
     (dotted_quad s \<or> (s \<noteq> [] \<and> last s = CHR 0x0A \<and> dotted_quad (butlast s)))"

section \<open>URL normalisation\<close>

definition COMMON_PROTOCOLS :: "string list" where
  "COMMON_PROTOCOLS = [''https://'', ''http://'']"

definition COMMON_PREFIXES :: "string list" where
  "COMMON_PREFIXES = [''www.'', '''']"

definition COMMON_SUFFIXES :: "string list" where
  "COMMON_SUFFIXES =
     [''.com'', ''.ai'', ''.org'', ''.net'', ''.io'', ''.co'',
      ''.edu'', ''.gov'', ''.uk'', ''.de'', ''.cn'', ''.jp'']"

text \<open>
  The answer of \<open>session.head(candidate, allow_redirects=True)\<close>: the request raises,
  or it yields a response with a status and the URL reached after the redirects.
\<close>

datatype head_result = HeadRaises | HeadResponse int string

text \<open>The bases: one per suffix when the URL ends in none of them.\<close>

definition base_candidates :: "string \<Rightarrow> string list" where
  "base_candidates url =
     (if \<not> list_ex (\<lambda>suffix. endswith url suffix) COMMON_SUFFIXES
      then map (\<lambda>suffix. if endswith url suffix then url else url @ suffix) COMMON_SUFFIXES
      else [url])"

text \<open>The loop over the bases that tries the prefixes.\<close>

definition prefix_candidates :: "string list \<Rightarrow> string list" where
  "prefix_candidates bases =
     concat (map (\<lambda>base.
        if \<not> list_ex (\<lambda>prefix. startswith base prefix) COMMON_PREFIXES
        then map (\<lambda>prefix. prefix @ base) COMMON_PREFIXES
        else [base]) bases)"

definition candidates :: "string \<Rightarrow> string list" where
  "candidates url =
     (if \<not> match_ip url then prefix_candidates (base_candidates url) else [url])"

definition final_candidates :: "string \<Rightarrow> string list" where
  "final_candidates url =
     concat (map (\<lambda>candidate. map (\<lambda>protocol. protocol @ candidate) COMMON_PROTOCOLS)
                 (candidates url))"

text \<open>
  The probing loop. It returns the URL of the first response with a status below 400,
  if there is one, and the list of the candidates it has sent a HEAD request to. A
  request that raises is skipped (\<open>except: continue\<close>), and so is a status from 400 on.
\<close>

fun try_candidates ::
  "(string \<Rightarrow> head_result) \<Rightarrow> string list \<Rightarrow> string option \<times> string list" where
  "try_candidates head [] = (None, [])"
| "try_candidates head (candidate # rest) =
     (case head candidate of
        HeadRaises \<Rightarrow>
          (case try_candidates head rest of (r, probed) \<Rightarrow> (r, candidate # probed))
      | HeadResponse status u \<Rightarrow>
          if status < 400 then (Some u, [candidate])
          else (case try_candidates head rest of (r, probed) \<Rightarrow> (r, candidate # probed)))"

definition has_scheme :: "string \<Rightarrow> bool" where
  "has_scheme url = (startswith url ''http://'' \<or> startswith url ''https://'')"

text \<open>
  \<open>normalize_url\<close> returns the URL and the HEAD requests it has made, in order.
\<close>

definition normalize_url :: "(string \<Rightarrow> head_result) \<Rightarrow> string \<Rightarrow> string \<times> string list" where
  "normalize_url head url0 =
     (let url = lower (strip url0)
      in if has_scheme url then (url, [])
         else
           let url = sub_scheme url;
               is_ip = match_ip url
           in (case try_candidates head (final_candidates url) of
                 (Some found, probed) \<Rightarrow> (found, probed)
               | (None, probed) \<Rightarrow>
                   (if \<not> is_ip then ''https://www.'' @ url else ''https://'' @ url, probed)))"

text \<open>
  A probe fails when the request raises or the status is 400 or more; a probe keeps
  the scheme when a response with a status below 400 carries a URL that starts with
  \<open>http://\<close> or \<open>https://\<close>, as the URL of an HTTP response does.
\<close>

definition probe_fails :: "(string \<Rightarrow> head_result) \<Rightarrow> string \<Rightarrow> bool" where
  "probe_fails head candidate =
     (case head candidate of HeadRaises \<Rightarrow> True | HeadResponse status u \<Rightarrow> \<not> status < 400)"

definition probe_keeps_scheme :: "(string \<Rightarrow> head_result) \<Rightarrow> string \<Rightarrow> bool" where
  "probe_keeps_scheme head candidate =
     (case head candidate of
        HeadRaises \<Rightarrow> True
      | HeadResponse status u \<Rightarrow> if status < 400 then has_scheme u else True)"

text \<open>The string the candidates are built from: trimmed, lower-cased, its scheme removed.\<close>

definition cleaned :: "string \<Rightarrow> string" where
  "cleaned url0 = sub_scheme (lower (strip url0))"

section \<open>The browser, the configuration and the scraper\<close>

text \<open>
  The exceptions the code tells apart: the browser library's timeout, Python's
  \<open>AttributeError\<close> and \<open>NameError\<close>, the package's \<open>ScrapingError\<close> with its
  message, URL and optional HTTP status, and any other exception, by the name of its
  class. Each of them is an instance of \<open>Exception\<close>, which is what the handler of
  \<open>scrape\<close> catches.
\<close>

datatype exn =
    TimeoutError
  | AttributeError
  | NameError
  | ScrapingError string string "int option"
  | OtherError string

text \<open>The calls a scraper makes on the network and on the browser, as they are logged.\<close>

datatype event =
    Head string
  | Launch
  | NewPage
  | SetUserAgent string
  | SetViewport
  | SetExtraHTTPHeaders
  | EvaluateOnNewDocument
  | Goto string
  | WaitForFunction
  | EvaluateScroll
  | Sleep
  | EvaluateCaptcha
  | EvaluateCloudflare
  | PageClose
  | BrowserClose

text \<open>
  \<open>page.goto\<close> raises, returns no response (\<open>None\<close>), or returns a response, of which
  the code reads the status.
\<close>

datatype goto_result = GotoRaises exn | NoResponse | Response int

datatype image_handling = IGNORE | DOWNLOAD | LINK_ONLY

record config =
  timeout :: int
  user_agents :: "string list"
  viewport :: "nat \<times> nat"
  screenshot_enabled :: bool
  image_handling :: "image_handling option"

text \<open>The keys a caller may override; a key left out keeps its default.\<close>

record user_config =
  user_timeout :: "int option"
  user_user_agents :: "string list option"
  user_viewport :: "(nat \<times> nat) option"
  user_screenshot_enabled :: "bool option"
  user_image_handling :: "image_handling option"

definition DEFAULT_CONFIG :: config where
  "DEFAULT_CONFIG =
     \<lparr> timeout = 60000,
       user_agents =
         [''Mozilla/5.0 (Windows NT 10.0; Win64; x64) AppleWebKit/537.36 (KHTML, like Gecko) Chrome/121.0.0.0 Safari/537.36'',
          ''Mozilla/5.0 (Macintosh; Intel Mac OS X 10_15_7) AppleWebKit/537.36 (KHTML, like Gecko) Chrome/121.0.0.0 Safari/537.36'',
          ''Mozilla/5.0 (Windows NT 10.0; Win64; x64) AppleWebKit/537.36 (KHTML, like Gecko) Chrome/120.0.0.0 Safari/537.36 Edg/120.0.0.0''],
       viewport = (1920, 1080),
       screenshot_enabled = True,
       image_handling = None \<rparr>"

definition merge_config :: "config \<Rightarrow> user_config option \<Rightarrow> config" where
  "merge_config d uc =
     (case uc of
        None \<Rightarrow> d
      | Some c \<Rightarrow>
          \<lparr> timeout = (case user_timeout c of None \<Rightarrow> timeout d | Some v \<Rightarrow> v),
            user_agents = (case user_user_agents c of None \<Rightarrow> user_agents d | Some v \<Rightarrow> v),
            viewport = (case user_viewport c of None \<Rightarrow> viewport d | Some v \<Rightarrow> v),
            screenshot_enabled =
              (case user_screenshot_enabled c of None \<Rightarrow> screenshot_enabled d | Some v \<Rightarrow> v),
            image_handling =
              (case user_image_handling c of None \<Rightarrow> image_handling d | Some v \<Rightarrow> Some v) \<rparr>)"

text \<open>
  The attribute \<open>self.browser\<close>: never assigned, \<open>None\<close>, or a running browser, of
  which the model keeps the number of open pages.
\<close>

datatype browser_ref = Unset | NoBrowser | Browser nat

record scraper =
  config :: config
  vault_path :: "string option"
  browser :: browser_ref

text \<open>
  The record \<open>WebContent\<close> is declared in the package's \<open>__init__\<close>; its fields are
  those the scraper assigns, each empty until it is assigned.
\<close>

record web_content =
  url :: string
  metadata :: "(string \<times> string) list option"
  content :: "string option"
  images :: "string list option"
  links :: "string list option"
  screenshots :: "string list option"

definition WebContent :: "string \<Rightarrow> web_content" where
  "WebContent u =
     \<lparr> url = u, metadata = None, content = None, images = None, links = None,
       screenshots = None \<rparr>"

text \<open>
  What is outside the scraper during one call: the answers of the network and of the
  browser, the index \<open>random.choice\<close> draws, the path \<open>urlparse\<close> finds in a URL (the
  standard library's parser, which raises \<open>ValueError\<close> on some inputs), and what the
  page shows.
\<close>

record env =
  head :: "string \<Rightarrow> head_result"
  goto :: "string \<Rightarrow> goto_result"
  fails :: "event \<Rightarrow> exn option"
  choice :: nat
  urlparse_path :: "string \<Rightarrow> exn + string"
  captcha_present :: bool
  cf_wrapper_present :: bool
  page_url :: string

record world =
  self :: scraper
  trace :: "event list"

type_synonym 'a io = "world \<Rightarrow> (exn + 'a) \<times> world"

definition io_return :: "'a \<Rightarrow> 'a io" where
  "io_return x = (\<lambda>w. (Inr x, w))"

definition io_raise :: "exn \<Rightarrow> 'a io" where
  "io_raise e = (\<lambda>w. (Inl e, w))"

definition io_bind :: "'a io \<Rightarrow> ('a \<Rightarrow> 'b io) \<Rightarrow> 'b io" where
  "io_bind m f = (\<lambda>w. case m w of (Inl e, w') \<Rightarrow> (Inl e, w') | (Inr x, w') \<Rightarrow> f x w')"

definition emit :: "event \<Rightarrow> unit io" where
  "emit ev = (\<lambda>w. (Inr (), w\<lparr>trace := trace w @ [ev]\<rparr>))"

definition call :: "env \<Rightarrow> event \<Rightarrow> unit io" where
  "call env ev =
     io_bind (emit ev) (\<lambda>_. case fails env ev of None \<Rightarrow> io_return () | Some e \<Rightarrow> io_raise e)"

definition set_browser :: "browser_ref \<Rightarrow> unit io" where
  "set_browser b = (\<lambda>w. (Inr (), w\<lparr>self := (self w)\<lparr>browser := b\<rparr>\<rparr>))"

subsection \<open>Names that are read and never defined\<close>

text \<open>
  The module reads the name \<open>puppeteer\<close> in two places, the handler of \<open>scrape\<close> and
  \<open>_setup_puppeteer\<close>, and binds it nowhere: there is no import of it and no
  assignment to it. Reading it raises \<open>NameError\<close>.
\<close>

definition puppeteer :: "unit io" where
  "puppeteer = io_raise NameError"

text \<open>
  The class \<open>WebScraper\<close> has no base class and defines none of the methods
  \<open>_handle_cookie_popups\<close>, \<open>_extract_metadata\<close>, \<open>_extract_content\<close>,
  \<open>_handle_images\<close>, \<open>_extract_links\<close> and \<open>_take_screenshots\<close> that it calls on
  \<open>self\<close>: the lookup of each raises \<open>AttributeError\<close>.
\<close>

definition handle_cookie_popups :: "unit io" where
  "handle_cookie_popups = io_raise AttributeError"

definition extract_metadata :: "(string \<times> string) list io" where
  "extract_metadata = io_raise AttributeError"

definition extract_content :: "string io" where
  "extract_content = io_raise AttributeError"

definition handle_images :: "string list io" where
  "handle_images = io_raise AttributeError"

definition extract_links :: "string list io" where
  "extract_links = io_raise AttributeError"

definition take_screenshots :: "string list io" where
  "take_screenshots = io_raise AttributeError"

subsection \<open>Construction and teardown\<close>

text \<open>
  \<open>_setup_puppeteer\<close> is a coroutine function. Awaited, it reads \<open>puppeteer\<close> to
  launch the browser, before it can assign \<open>self.browser\<close>.
\<close>

definition setup_puppeteer :: "env \<Rightarrow> unit io" where
  "setup_puppeteer env =
     io_bind puppeteer (\<lambda>_.
     io_bind (call env Launch) (\<lambda>_.
     set_browser (Browser 0)))"

text \<open>
  \<open>__init__\<close> calls \<open>self._setup_puppeteer()\<close> without awaiting it: the call builds a
  coroutine object and drops it, the body does not run, and \<open>self.browser\<close> is not
  assigned.
\<close>

definition init :: "user_config option \<Rightarrow> string option \<Rightarrow> scraper" where
  "init cfg vault =
     \<lparr> config = merge_config DEFAULT_CONFIG cfg, vault_path = vault, browser = Unset \<rparr>"

definition close :: "env \<Rightarrow> unit io" where
  "close env =
     (\<lambda>w. case browser (self w) of
        Unset \<Rightarrow> (Inl AttributeError, w)
      | NoBrowser \<Rightarrow> (Inr (), w)
      | Browser n \<Rightarrow> io_bind (call env BrowserClose) (\<lambda>_. set_browser NoBrowser) w)"

subsection \<open>Pages\<close>

text \<open>
  \<open>self.browser.newPage()\<close>: the attribute lookup fails when \<open>self.browser\<close> was never
  assigned or is \<open>None\<close>; otherwise the browser opens one more page.
\<close>

definition new_page :: "env \<Rightarrow> unit io" where
  "new_page env =
     (\<lambda>w. case browser (self w) of
        Unset \<Rightarrow> (Inl AttributeError, w)
      | NoBrowser \<Rightarrow> (Inl AttributeError, w)
      | Browser n \<Rightarrow> io_bind (call env NewPage) (\<lambda>_. set_browser (Browser (Suc n))) w)"

definition page_close :: "env \<Rightarrow> unit io" where
  "page_close env =
     io_bind (call env PageClose) (\<lambda>_ w.
       case browser (self w) of
         Browser n \<Rightarrow> set_browser (Browser (n - 1)) w
       | _ \<Rightarrow> (Inr (), w))"

definition open_pages :: "world \<Rightarrow> nat" where
  "open_pages w = (case browser (self w) of Browser n \<Rightarrow> n | _ \<Rightarrow> 0)"

definition inject_stealth_scripts :: "env \<Rightarrow> unit io" where
  "inject_stealth_scripts env = call env EvaluateOnNewDocument"

text \<open>\<open>random.choice\<close> raises \<open>IndexError\<close> on an empty list.\<close>

definition setup_page :: "env \<Rightarrow> unit io" where
  "setup_page env =
     (\<lambda>w. let agents = user_agents (config (self w))
           in if agents = [] then (Inl (OtherError ''IndexError''), w)
              else
                io_bind (call env (SetUserAgent (agents ! (choice env mod length agents)))) (\<lambda>_.
                io_bind (call env SetViewport) (\<lambda>_.
                io_bind (call env SetExtraHTTPHeaders) (\<lambda>_.
                inject_stealth_scripts env))) w)"

definition page_goto :: "env \<Rightarrow> string \<Rightarrow> int option io" where
  "page_goto env target =
     io_bind (emit (Goto target)) (\<lambda>_.
       case goto env target of
         GotoRaises e \<Rightarrow> io_raise e
       | NoResponse \<Rightarrow> io_return None
       | Response status \<Rightarrow> io_return (Some status))"

text \<open>The alternative URLs, built when the parsed path is empty or the root.\<close>

definition alternatives :: "env \<Rightarrow> string \<Rightarrow> string list io" where
  "alternatives env normalized_url =
     (case urlparse_path env normalized_url of
        Inl e \<Rightarrow> io_raise e
      | Inr path \<Rightarrow>
          io_return
            (if path = [] \<or> path = ''/''
             then [normalized_url @ ''/index.html'', normalized_url @ ''/home'',
                   normalized_url @ ''/main'']
             else []))"

text \<open>
  The loop over the alternatives: the first response ends it, a navigation that
  raises or gives no response moves on to the next (\<open>except: continue\<close>).
\<close>

fun try_alternatives :: "env \<Rightarrow> string list \<Rightarrow> world \<Rightarrow> (exn + int option) \<times> world" where
  "try_alternatives env [] w = (Inr None, w)"
| "try_alternatives env (alt_url # rest) w =
     (case page_goto env alt_url w of
        (Inr (Some status), w') \<Rightarrow> (Inr (Some status), w')
      | (Inr None, w') \<Rightarrow> try_alternatives env rest w'
      | (Inl e, w') \<Rightarrow> try_alternatives env rest w')"

subsection \<open>Anti-bot measures\<close>

definition simulate_scrolling :: "env \<Rightarrow> unit io" where
  "simulate_scrolling env = io_bind (call env EvaluateScroll) (\<lambda>_. call env Sleep)"

definition handle_challenges :: "env \<Rightarrow> unit io" where
  "handle_challenges env =
     io_bind (call env EvaluateCaptcha) (\<lambda>_.
       if captcha_present env
       then io_raise (ScrapingError ''CAPTCHA detected'' (page_url env) None)
       else
         io_bind (call env EvaluateCloudflare) (\<lambda>_.
           if cf_wrapper_present env
           then io_raise (ScrapingError ''Cloudflare protection detected'' (page_url env) None)
           else io_return ()))"

definition handle_anti_bot :: "env \<Rightarrow> unit io" where
  "handle_anti_bot env =
     io_bind (call env WaitForFunction) (\<lambda>_.
     io_bind (simulate_scrolling env) (\<lambda>_.
     io_bind handle_cookie_popups (\<lambda>_.
     handle_challenges env)))"

subsection \<open>Scraping\<close>

text \<open>Python's \<open>str\<close> of an integer, as the f-string \<open>f"HTTP {status}"\<close> formats it.\<close>

fun str_nat :: "nat \<Rightarrow> string" where
  "str_nat n =
     (if n < 10 then [char_of (48 + n)]
      else str_nat (n div 10) @ [char_of (48 + n mod 10)])"

declare str_nat.simps [simp del]

definition str_int :: "int \<Rightarrow> string" where
  "str_int i = (if i < 0 then CHR ''-'' # str_nat (nat (- i)) else str_nat (nat i))"

text \<open>The extraction, from the creation of the record to the return.\<close>

definition extract_page :: "env \<Rightarrow> string \<Rightarrow> web_content io" where
  "extract_page env normalized_url =
     (\<lambda>w. let cfg = config (self w); c0 = WebContent normalized_url
       in (io_bind extract_metadata (\<lambda>m.
           let c1 = c0\<lparr>metadata := Some m\<rparr> in
           io_bind extract_content (\<lambda>t.
           let c2 = c1\<lparr>content := Some t\<rparr> in
           io_bind (if image_handling cfg \<noteq> Some IGNORE
                    then io_bind handle_images (\<lambda>i. io_return (c2\<lparr>images := Some i\<rparr>))
                    else io_return c2) (\<lambda>c3.
           io_bind extract_links (\<lambda>l.
           let c4 = c3\<lparr>links := Some l\<rparr> in
           io_bind (if screenshot_enabled cfg
                    then io_bind take_screenshots
                           (\<lambda>s. io_return (c4\<lparr>screenshots := Some s\<rparr>))
                    else io_return c4) (\<lambda>c5.
           io_bind (page_close env) (\<lambda>_.
           io_return c5))))))) w)"

text \<open>
  The navigation: \<open>page.goto\<close> on the normalised URL and, when it gives no response,
  on the alternatives; it returns the response, of which the model keeps the status,
  or raises \<open>ScrapingError("Failed to load page", normalized_url)\<close>.
\<close>

definition navigate :: "env \<Rightarrow> string \<Rightarrow> int io" where
  "navigate env normalized_url =
     io_bind (page_goto env normalized_url) (\<lambda>response.
       case response of
         Some status \<Rightarrow> io_return status
       | None \<Rightarrow>
           io_bind (alternatives env normalized_url) (\<lambda>alts.
           io_bind (try_alternatives env alts) (\<lambda>response.
             case response of
               Some status \<Rightarrow> io_return status
             | None \<Rightarrow> io_raise (ScrapingError ''Failed to load page'' normalized_url None))))"

text \<open>The body of the \<open>try\<close> block of \<open>scrape\<close>.\<close>

definition scrape_try :: "env \<Rightarrow> string \<Rightarrow> web_content io" where
  "scrape_try env normalized_url =
     io_bind (new_page env) (\<lambda>_.
     io_bind (setup_page env) (\<lambda>_.
     io_bind (navigate env normalized_url) (\<lambda>status.
       if status \<ge> 400
       then io_raise (ScrapingError (''HTTP '' @ str_int status) normalized_url (Some status))
       else
         io_bind (handle_anti_bot env) (\<lambda>_.
         extract_page env normalized_url))))"

text \<open>
  The handler \<open>except Exception as e\<close>. Its test
  \<open>isinstance(e, puppeteer.errors.TimeoutError)\<close> reads \<open>puppeteer\<close> first; the
  mapping of the timeout to \<open>ScrapingError("Page load timeout", normalized_url)\<close> and
  the bare \<open>raise\<close> come after it.
\<close>

definition handler :: "string \<Rightarrow> exn \<Rightarrow> web_content io" where
  "handler normalized_url e =
     io_bind puppeteer (\<lambda>_.
       if e = TimeoutError
       then io_raise (ScrapingError ''Page load timeout'' normalized_url None)
       else io_raise e)"

text \<open>\<open>scrape\<close>: the URL is normalised before the \<open>try\<close>, with its HEAD requests.\<close>

definition scrape :: "env \<Rightarrow> string \<Rightarrow> web_content io" where
  "scrape env url0 =
     (\<lambda>w. case normalize_url (head env) url0 of
        (normalized_url, probed) \<Rightarrow>
          (case scrape_try env normalized_url (w\<lparr>trace := trace w @ map Head probed\<rparr>) of
             (Inl e, w') \<Rightarrow> handler normalized_url e w'
           | (Inr c, w') \<Rightarrow> (Inr c, w')))"

text \<open>What the \<open>try\<close> block of a call of \<open>scrape\<close> returns or raises, before the handler.\<close>

definition try_block :: "env \<Rightarrow> string \<Rightarrow> web_content io" where
  "try_block env url0 =
     (\<lambda>w. case normalize_url (head env) url0 of
        (normalized_url, probed) \<Rightarrow>
          scrape_try env normalized_url (w\<lparr>trace := trace w @ map Head probed\<rparr>))"

subsection \<open>The life of a scraper\<close>

text \<open>
  A scraper as the constructor leaves it, and what the class lets a caller do with it
  afterwards: await \<open>scrape\<close>, \<open>close\<close> and \<open>_setup_puppeteer\<close>, in any order and each
  against its own environment.
\<close>

definition constructed :: "user_config option \<Rightarrow> string option \<Rightarrow> world" where
  "constructed cfg vault = \<lparr> self = init cfg vault, trace = [] \<rparr>"

datatype request = Scrape env string | Close env | SetupPuppeteer env

fun perform :: "request \<Rightarrow> world \<Rightarrow> world" where
  "perform (Scrape env url0) w = snd (scrape env url0 w)"
| "perform (Close env) w = snd (close env w)"
| "perform (SetupPuppeteer env) w = snd (setup_puppeteer env w)"

definition run_requests :: "request list \<Rightarrow> world \<Rightarrow> world" where
  "run_requests rs w = fold perform rs w"

subsection \<open>Traces\<close>

text \<open>The navigations of a trace, and the events a call has added to the trace.\<close>

definition navigations :: "event list \<Rightarrow> string list" where
  "navigations evs = concat (map (\<lambda>ev. case ev of Goto u \<Rightarrow> [u] | _ \<Rightarrow> []) evs)"

definition new_events :: "world \<Rightarrow> world \<Rightarrow> event list" where
  "new_events w w' = drop (length (trace w)) (trace w')"

text \<open>
  A computation only adds events to the trace, and each event it adds satisfies \<open>Q\<close>;
  a computation leaves the scraper as it is.
\<close>

definition emits_only :: "(event \<Rightarrow> bool) \<Rightarrow> 'a io \<Rightarrow> bool" where
  "emits_only Q m = (\<forall>w. \<exists>evs. trace (snd (m w)) = trace w @ evs \<and> list_all Q evs)"

definition keeps_self :: "'a io \<Rightarrow> bool" where
  "keeps_self m = (\<forall>w. self (snd (m w)) = self w)"

text \<open>
  The page opens and is set up: \<open>self.browser\<close> holds a running browser, there is a
  user agent to draw, and none of the calls from \<open>newPage\<close> to the injection of the
  stealth scripts raises. \<open>opened\<close> is the world after these calls.
\<close>

definition chosen_agent :: "env \<Rightarrow> world \<Rightarrow> string" where
  "chosen_agent env w =
     user_agents (config (self w)) ! (choice env mod length (user_agents (config (self w))))"

definition setup_events :: "env \<Rightarrow> world \<Rightarrow> event list" where
  "setup_events env w =
     [NewPage, SetUserAgent (chosen_agent env w), SetViewport, SetExtraHTTPHeaders,
      EvaluateOnNewDocument]"

definition page_opens :: "env \<Rightarrow> world \<Rightarrow> bool" where
  "page_opens env w =
     ((case browser (self w) of Browser n \<Rightarrow> True | _ \<Rightarrow> False)
      \<and> user_agents (config (self w)) \<noteq> []
      \<and> list_all (\<lambda>ev. fails env ev = None) (setup_events env w))"

definition opened :: "env \<Rightarrow> world \<Rightarrow> world" where
  "opened env w =
     w\<lparr> self := (self w)\<lparr>browser := Browser (Suc (open_pages w))\<rparr>,
        trace := trace w @ setup_events env w \<rparr>"

text \<open>A navigation that gives no response: it raises or returns \<open>None\<close>.\<close>

definition no_response :: "env \<Rightarrow> string \<Rightarrow> bool" where
  "no_response env target = (case goto env target of Response status \<Rightarrow> False | _ \<Rightarrow> True)"

text \<open>
  Worlds and environments to run the code in. In \<open>with_browser\<close> the caller has
  assigned the attribute \<open>browser\<close> of a constructed scraper, to a running browser with
  no open page; nothing in the class makes that assignment.
\<close>

definition with_browser :: world where
  "with_browser = \<lparr> self = (init None None)\<lparr>browser := Browser 0\<rparr>, trace = [] \<rparr>"

definition env0 :: "(string \<Rightarrow> goto_result) \<Rightarrow> env" where
  "env0 g =
     \<lparr> head = (\<lambda>_. HeadRaises), goto = g, fails = (\<lambda>_. None), choice = 0,
       urlparse_path = (\<lambda>_. Inr []), captcha_present = False, cf_wrapper_present = False,
       page_url = ''https://example.com/'' \<rparr>"

section \<open>Properties of URL normalisation\<close>

lemma try_candidates_all_fail:
  "list_all (probe_fails h) cs \<Longrightarrow> try_candidates h cs = (None, cs)"
  by (induction cs) (auto simp: probe_fails_def split: head_result.splits)

lemma try_candidates_found:
  "try_candidates h cs = (Some u, probed) \<Longrightarrow>
     \<exists>c \<in> set cs. \<exists>status. h c = HeadResponse status u \<and> status < 400"
  by (induction cs arbitrary: probed) (auto split: head_result.splits if_splits prod.splits)

lemma try_candidates_probed_prefix:
  "snd (try_candidates h cs) = take (length (snd (try_candidates h cs))) cs"
  by (induction cs) (auto split: head_result.splits prod.splits)

lemma normalize_url_probed_prefix:
  assumes "\<not> has_scheme (lower (strip x))"
  shows "snd (normalize_url h x) =
           take (length (snd (normalize_url h x))) (final_candidates (cleaned x))"
proof -
  obtain r probed where tc: "try_candidates h (final_candidates (cleaned x)) = (r, probed)"
    by (cases "try_candidates h (final_candidates (cleaned x))")
  then have "snd (normalize_url h x) = probed"
    using assms by (simp add: normalize_url_def cleaned_def Let_def split: option.splits)
  moreover have "probed = take (length probed) (final_candidates (cleaned x))"
    using try_candidates_probed_prefix [of h "final_candidates (cleaned x)"] tc by simp
  ultimately show ?thesis by simp
qed

lemma base_candidates_no_suffix:
  assumes "\<not> list_ex (endswith u) COMMON_SUFFIXES"
  shows "base_candidates u = map (\<lambda>suffix. u @ suffix) COMMON_SUFFIXES"
  using assms by (auto simp: base_candidates_def list_ex_iff)

lemma prefix_candidates_id: "prefix_candidates bases = bases"
  by (induction bases) (simp_all add: prefix_candidates_def COMMON_PREFIXES_def startswith_def)

lemma final_candidates_no_suffix:
  assumes "\<not> match_ip u" and "\<not> list_ex (endswith u) COMMON_SUFFIXES"
  shows "final_candidates u =
     concat (map (\<lambda>suffix. [''https://'' @ u @ suffix, ''http://'' @ u @ suffix])
               COMMON_SUFFIXES)"
  using assms(1)
  by (simp add: final_candidates_def candidates_def prefix_candidates_id
      base_candidates_no_suffix [OF assms(2)] comp_def COMMON_PROTOCOLS_def)

text \<open>
  C2: the candidates of a non-IP input without a known suffix are the expansion of the
  prefixes, the suffixes and the protocols. The code builds no prefix expansion: every
  base starts with the empty prefix, so the test
  \<open>any(base.startswith(prefix) for prefix in COMMON_PREFIXES)\<close> holds for every base
  and the loop over the prefixes is never entered. For an input that is not
  scheme-prefixed and whose cleaned form \<open>u\<close> is no IP and ends in no known suffix, the
  candidates are, suffix by suffix, \<open>https://\<close> + \<open>u\<close> + suffix and then \<open>http://\<close> +
  \<open>u\<close> + suffix: their number is suffixes times protocols, without the factor of the
  prefixes, and the probes are sent along that list.
\<close>

theorem C2_no_prefix_expansion:
  assumes "\<not> has_scheme (lower (strip x))"
    and "u = cleaned x"
    and "\<not> match_ip u"
    and "\<not> list_ex (endswith u) COMMON_SUFFIXES"
  shows "final_candidates u =
           concat (map (\<lambda>suffix. [''https://'' @ u @ suffix, ''http://'' @ u @ suffix])
                     COMMON_SUFFIXES)
         \<and> length (final_candidates u) = length COMMON_SUFFIXES * length COMMON_PROTOCOLS
         \<and> snd (normalize_url h x) =
             take (length (snd (normalize_url h x))) (final_candidates u)"
proof -
  have f: "final_candidates u =
     concat (map (\<lambda>suffix. [''https://'' @ u @ suffix, ''http://'' @ u @ suffix])
               COMMON_SUFFIXES)"
    using final_candidates_no_suffix [OF assms(3) assms(4)] .
  have l: "length (final_candidates u) = length COMMON_SUFFIXES * length COMMON_PROTOCOLS"
    unfolding f by (simp add: COMMON_SUFFIXES_def COMMON_PROTOCOLS_def)
  show ?thesis
    using f l normalize_url_probed_prefix [OF assms(1), of h] assms(2) by simp
qed

theorem C2_no_prefix_expansion_witness:
  "\<not> has_scheme (lower (strip ''example''))
   \<and> ''example'' = cleaned ''example''
   \<and> \<not> match_ip ''example''
   \<and> \<not> list_ex (endswith ''example'') COMMON_SUFFIXES
   \<and> final_candidates ''example'' =
       [''https://example.com'', ''http://example.com'',
        ''https://example.ai'', ''http://example.ai'',
        ''https://example.org'', ''http://example.org'',
        ''https://example.net'', ''http://example.net'',
        ''https://example.io'', ''http://example.io'',
        ''https://example.co'', ''http://example.co'',
        ''https://example.edu'', ''http://example.edu'',
        ''https://example.gov'', ''http://example.gov'',
        ''https://example.uk'', ''http://example.uk'',
        ''https://example.de'', ''http://example.de'',
        ''https://example.cn'', ''http://example.cn'',
        ''https://example.jp'', ''http://example.jp'']
   \<and> length (final_candidates ''example'') = 24
   \<and> length COMMON_SUFFIXES * length COMMON_PREFIXES * length COMMON_PROTOCOLS = 48
   \<and> snd (normalize_url (\<lambda>_. HeadRaises) ''example'') = final_candidates ''example''
   \<and> fst (normalize_url (\<lambda>c. if c = ''https://www.example.com''
                               then HeadResponse 200 ''https://www.example.com/''
                               else HeadRaises) ''example'') = ''https://www.example''"
proof -
  have a: "\<not> has_scheme (lower (strip ''example''))" by code_simp
  have b: "''example'' = cleaned ''example''" by code_simp
  have c: "\<not> match_ip ''example''" by code_simp
  have d: "\<not> list_ex (endswith ''example'') COMMON_SUFFIXES" by code_simp
  have e: "concat (map (\<lambda>suffix. [''https://'' @ ''example'' @ suffix,
                                   ''http://'' @ ''example'' @ suffix]) COMMON_SUFFIXES) =
       [''https://example.com'', ''http://example.com'',
        ''https://example.ai'', ''http://example.ai'',
        ''https://example.org'', ''http://example.org'',
        ''https://example.net'', ''http://example.net'',
        ''https://example.io'', ''http://example.io'',
        ''https://example.co'', ''http://example.co'',
        ''https://example.edu'', ''http://example.edu'',
        ''https://example.gov'', ''http://example.gov'',
        ''https://example.uk'', ''http://example.uk'',
        ''https://example.de'', ''http://example.de'',
        ''https://example.cn'', ''http://example.cn'',
        ''https://example.jp'', ''http://example.jp'']"
    by (simp add: COMMON_SUFFIXES_def)
  have f: "length COMMON_SUFFIXES * length COMMON_PROTOCOLS = 24"
    by (simp add: COMMON_SUFFIXES_def COMMON_PROTOCOLS_def)
  have g: "length COMMON_SUFFIXES * length COMMON_PREFIXES * length COMMON_PROTOCOLS = 48"
    by (simp add: COMMON_SUFFIXES_def COMMON_PROTOCOLS_def COMMON_PREFIXES_def)
  have p: "length (snd (normalize_url (\<lambda>_. HeadRaises) ''example'')) = 24" by code_simp
  have q: "fst (normalize_url (\<lambda>c. if c = ''https://www.example.com''
                               then HeadResponse 200 ''https://www.example.com/''
                               else HeadRaises) ''example'') = ''https://www.example''"
    by code_simp
  have t: "final_candidates ''example'' =
           concat (map (\<lambda>suffix. [''https://'' @ ''example'' @ suffix,
                                   ''http://'' @ ''example'' @ suffix]) COMMON_SUFFIXES)
         \<and> length (final_candidates ''example'')
             = length COMMON_SUFFIXES * length COMMON_PROTOCOLS
         \<and> snd (normalize_url (\<lambda>_. HeadRaises) ''example'') =
             take (length (snd (normalize_url (\<lambda>_. HeadRaises) ''example'')))
               (final_candidates ''example'')"
    using C2_no_prefix_expansion [OF a b c d, of "\<lambda>_. HeadRaises"] .
  note t1 = t [THEN conjunct1]
  note t2 = t [THEN conjunct2, THEN conjunct1]
  note t3 = t [THEN conjunct2, THEN conjunct2]
  have l: "length (final_candidates ''example'') = 24"
    using t2 f by (simp only:)
  have r: "snd (normalize_url (\<lambda>_. HeadRaises) ''example'') = final_candidates ''example''"
    using t3 p l by simp
  have v: "final_candidates ''example'' =
       [''https://example.com'', ''http://example.com'',
        ''https://example.ai'', ''http://example.ai'',
        ''https://example.org'', ''http://example.org'',
        ''https://example.net'', ''http://example.net'',
        ''https://example.io'', ''http://example.io'',
        ''https://example.co'', ''http://example.co'',
        ''https://example.edu'', ''http://example.edu'',
        ''https://example.gov'', ''http://example.gov'',
        ''https://example.uk'', ''http://example.uk'',
        ''https://example.de'', ''http://example.de'',
        ''https://example.cn'', ''http://example.cn'',
        ''https://example.jp'', ''http://example.jp'']"
    using t1 e by (simp only:)
  show ?thesis
    using a b c d g l q r v by (simp only: simp_thms)
qed

text \<open>
  C4, as it is written, fails: \<open>https://Example.com/Page\<close> starts with \<open>https://\<close>
  and is returned lower-cased.
\<close>

theorem C4_lowercased_counterexample:
  "has_scheme ''https://Example.com/Page''
   \<and> fst (normalize_url (\<lambda>_. HeadRaises) ''https://Example.com/Page'')
       \<noteq> ''https://Example.com/Page''"
  by code_simp

text \<open>
  C4, amended: for every input whose trimmed, lower-cased form starts with \<open>http://\<close>
  or \<open>https://\<close>, \<open>normalize_url\<close> returns that trimmed, lower-cased form and sends
  no HEAD request.
\<close>

theorem C4_scheme_prefixed_no_probe:
  assumes "has_scheme (lower (strip x))"
  shows "normalize_url h x = (lower (strip x), [])"
  using assms by (simp add: normalize_url_def)

theorem C4_scheme_prefixed_witness:
  "has_scheme (lower (strip '' https://Example.com/Page''))
   \<and> normalize_url (\<lambda>_. HeadResponse 200 ''https://other.example/'')
        '' https://Example.com/Page''
       = (''https://example.com/page'', [])"
proof -
  have a: "has_scheme (lower (strip '' https://Example.com/Page''))" by code_simp
  have b: "lower (strip '' https://Example.com/Page'') = ''https://example.com/page''"
    by code_simp
  show ?thesis
    using C4_scheme_prefixed_no_probe
      [OF a, of "\<lambda>_. HeadResponse 200 ''https://other.example/''"] a b
    by simp
qed

text \<open>
  C6, as it is written, fails: the fallback is not built from the input. With every
  probe raising, the input \<open>Example\<close>, which is no IP, gives \<open>https://www.example\<close>
  and not \<open>https://www.Example\<close>; \<open>ftp://Foo\<close> gives \<open>https://www.foo\<close>; and the
  IP \<open>10.0.0.1\<close> between two spaces gives \<open>https://10.0.0.1\<close>. And for
  \<open>http://foo.com\<close> no candidate is probed, so that no probe succeeds, and there is
  no fallback: the input comes back.
\<close>

theorem C6_fallback_of_input_counterexample:
  "\<not> match_ip ''Example''
   \<and> fst (normalize_url (\<lambda>_. HeadRaises) ''Example'') = ''https://www.example''
   \<and> fst (normalize_url (\<lambda>_. HeadRaises) ''Example'') \<noteq> ''https://www.'' @ ''Example''
   \<and> fst (normalize_url (\<lambda>_. HeadRaises) ''ftp://Foo'') = ''https://www.foo''
   \<and> fst (normalize_url (\<lambda>_. HeadRaises) ''ftp://Foo'') \<noteq> ''https://www.'' @ ''ftp://Foo''
   \<and> fst (normalize_url (\<lambda>_. HeadRaises) '' 10.0.0.1 '') = ''https://10.0.0.1''
   \<and> fst (normalize_url (\<lambda>_. HeadRaises) '' 10.0.0.1 '') \<noteq> ''https://'' @ '' 10.0.0.1 ''
   \<and> normalize_url (\<lambda>_. HeadRaises) ''http://foo.com'' = (''http://foo.com'', [])"
  by code_simp

text \<open>
  C6, amended: for every input, when every candidate probe fails, by raising or by a
  status of 400 or more, \<open>normalize_url\<close> returns, each failure swallowed. For an
  input whose trimmed, lower-cased form starts with \<open>http://\<close> or \<open>https://\<close> it
  returns that form and has made no probe. For every other input it has made one HEAD
  request per candidate, in list order, and returns the fallback \<open>https://www.\<close> +
  \<open>u\<close>, or \<open>https://\<close> + \<open>u\<close> when \<open>u\<close> is an IP, where \<open>u\<close> is the input trimmed,
  lower-cased and without its scheme prefix.
\<close>

theorem C6_all_probes_fail_fallback:
  assumes "list_all (probe_fails h) (final_candidates (cleaned x))"
  shows "normalize_url h x =
           (if has_scheme (lower (strip x)) then (lower (strip x), [])
            else (if match_ip (cleaned x) then ''https://'' @ cleaned x
                  else ''https://www.'' @ cleaned x,
                  final_candidates (cleaned x)))"
  using assms by (simp add: normalize_url_def cleaned_def Let_def try_candidates_all_fail)

theorem C6_fallback_witness:
  "list_all (probe_fails (\<lambda>c. if c = ''https://foo.com'' then HeadRaises
                               else HeadResponse 503 c))
        (final_candidates (cleaned ''FTP://Foo.COM ''))
   \<and> normalize_url (\<lambda>c. if c = ''https://foo.com'' then HeadRaises else HeadResponse 503 c)
        ''FTP://Foo.COM ''
       = (''https://www.foo.com'', [''https://foo.com'', ''http://foo.com''])
   \<and> list_all (probe_fails (\<lambda>_. HeadResponse 404 ''https://elsewhere.example/''))
        (final_candidates (cleaned '' 10.0.0.1''))
   \<and> normalize_url (\<lambda>_. HeadResponse 404 ''https://elsewhere.example/'') '' 10.0.0.1''
       = (''https://10.0.0.1'', [''https://10.0.0.1'', ''http://10.0.0.1''])
   \<and> list_all (probe_fails (\<lambda>_. HeadRaises)) (final_candidates (cleaned ''HTTP://Foo.com/A''))
   \<and> normalize_url (\<lambda>_. HeadRaises) ''HTTP://Foo.com/A'' = (''http://foo.com/a'', [])"
proof -
  let ?h1 = "\<lambda>c. if c = ''https://foo.com'' then HeadRaises else HeadResponse 503 c"
  let ?h2 = "\<lambda>_::string. HeadResponse 404 ''https://elsewhere.example/''"
  let ?h3 = "\<lambda>_::string. HeadRaises"
  have a1: "list_all (probe_fails ?h1) (final_candidates (cleaned ''FTP://Foo.COM ''))"
    by code_simp
  have b1: "\<not> has_scheme (lower (strip ''FTP://Foo.COM ''))" by code_simp
  have c1: "cleaned ''FTP://Foo.COM '' = ''foo.com''" by code_simp
  have d1: "\<not> match_ip ''foo.com''" by code_simp
  have e1: "final_candidates ''foo.com'' = [''https://foo.com'', ''http://foo.com'']"
    by code_simp
  have a2: "list_all (probe_fails ?h2) (final_candidates (cleaned '' 10.0.0.1''))"
    by code_simp
  have b2: "\<not> has_scheme (lower (strip '' 10.0.0.1''))" by code_simp
  have c2: "cleaned '' 10.0.0.1'' = ''10.0.0.1''" by code_simp
  have d2: "match_ip ''10.0.0.1''" by code_simp
  have e2: "final_candidates ''10.0.0.1'' = [''https://10.0.0.1'', ''http://10.0.0.1'']"
    by code_simp
  have a3: "list_all (probe_fails ?h3) (final_candidates (cleaned ''HTTP://Foo.com/A''))"
    by code_simp
  have b3: "has_scheme (lower (strip ''HTTP://Foo.com/A''))" by code_simp
  have c3: "lower (strip ''HTTP://Foo.com/A'') = ''http://foo.com/a''" by code_simp
  have r1: "normalize_url ?h1 ''FTP://Foo.COM ''
              = (''https://www.foo.com'', [''https://foo.com'', ''http://foo.com''])"
    using C6_all_probes_fail_fallback [OF a1] b1 c1 d1 e1 by simp
  have r2: "normalize_url ?h2 '' 10.0.0.1''
              = (''https://10.0.0.1'', [''https://10.0.0.1'', ''http://10.0.0.1''])"
    using C6_all_probes_fail_fallback [OF a2] b2 c2 d2 e2 by simp
  have r3: "normalize_url ?h3 ''HTTP://Foo.com/A'' = (''http://foo.com/a'', [])"
    using C6_all_probes_fail_fallback [OF a3] b3 c3 by simp
  show ?thesis
    using a1 a2 a3 r1 r2 r3 by simp
qed

text \<open>
  C10: provided every probe of a candidate that succeeds reports a URL starting with
  \<open>http://\<close> or \<open>https://\<close>, the string \<open>normalize_url\<close> returns starts with
  \<open>http://\<close> or \<open>https://\<close>, for every input.
\<close>

theorem C10_result_has_scheme:
  assumes "list_all (probe_keeps_scheme h) (final_candidates (cleaned x))"
  shows "has_scheme (fst (normalize_url h x))"
proof (cases "has_scheme (lower (strip x))")
  case True
  then show ?thesis by (simp add: normalize_url_def)
next
  case False
  obtain r probed where tc: "try_candidates h (final_candidates (cleaned x)) = (r, probed)"
    by (cases "try_candidates h (final_candidates (cleaned x))")
  show ?thesis
  proof (cases r)
    case None
    with False tc show ?thesis
      by (simp add: normalize_url_def cleaned_def Let_def has_scheme_def startswith_def)
  next
    case (Some found)
    with tc obtain c status where c: "c \<in> set (final_candidates (cleaned x))"
        and hc: "h c = HeadResponse status found" and st: "status < 400"
      using try_candidates_found [of h "final_candidates (cleaned x)" found probed] by blast
    from assms c have "probe_keeps_scheme h c" by (simp add: list_all_iff)
    with hc st have "has_scheme found" by (simp add: probe_keeps_scheme_def)
    with False tc Some show ?thesis
      by (simp add: normalize_url_def cleaned_def Let_def)
  qed
qed

theorem C10_result_has_scheme_witness:
  "list_all (probe_keeps_scheme (\<lambda>c. if c = ''http://example.org''
                                     then HeadResponse 200 ''https://www.example.org/''
                                     else HeadResponse 404 c))
     (final_candidates (cleaned ''Example''))
   \<and> has_scheme (fst (normalize_url (\<lambda>c. if c = ''http://example.org''
                                         then HeadResponse 200 ''https://www.example.org/''
                                         else HeadResponse 404 c) ''Example''))
   \<and> fst (normalize_url (\<lambda>c. if c = ''http://example.org''
                             then HeadResponse 200 ''https://www.example.org/''
                             else HeadResponse 404 c) ''Example'')
       = ''https://www.example.org/''"
proof -
  have a: "list_all (probe_keeps_scheme (\<lambda>c. if c = ''http://example.org''
                                     then HeadResponse 200 ''https://www.example.org/''
                                     else HeadResponse 404 c))
             (final_candidates (cleaned ''Example''))" by code_simp
  have b: "fst (normalize_url (\<lambda>c. if c = ''http://example.org''
                             then HeadResponse 200 ''https://www.example.org/''
                             else HeadResponse 404 c) ''Example'')
             = ''https://www.example.org/''" by code_simp
  show ?thesis
    using C10_result_has_scheme [OF a] a b by simp
qed

section \<open>Properties of scraping\<close>

lemma navigations_append: "navigations (xs @ ys) = navigations xs @ navigations ys"
  by (simp add: navigations_def)

lemma navigations_Head: "navigations (map Head ps) = []"
  by (induction ps) (simp_all add: navigations_def)

lemma navigations_Goto: "navigations (map Goto us) = us"
  by (induction us) (simp_all add: navigations_def)

lemma navigations_setup: "navigations (setup_events env w) = []"
  by (simp add: navigations_def setup_events_def)

lemma navigations_no_goto:
  "list_all (\<lambda>ev. \<forall>u. ev \<noteq> Goto u) evs \<Longrightarrow> navigations evs = []"
  by (induction evs) (auto simp: navigations_def split: event.splits)

lemma page_opens_trace: "page_opens env (w\<lparr>trace := t\<rparr>) = page_opens env w"
  by (simp add: page_opens_def setup_events_def chosen_agent_def)

lemma setup_events_trace: "setup_events env (w\<lparr>trace := t\<rparr>) = setup_events env w"
  by (simp add: setup_events_def chosen_agent_def)

lemma open_and_setup:
  assumes "page_opens env w"
  shows "io_bind (new_page env) (\<lambda>_. setup_page env) w = (Inr (), opened env w)"
  using assms
  by (auto simp: page_opens_def setup_events_def chosen_agent_def opened_def open_pages_def
      io_bind_def new_page_def setup_page_def call_def emit_def io_return_def io_raise_def
      set_browser_def inject_stealth_scripts_def Let_def split: browser_ref.splits)

text \<open>The names that are not defined: what reading them does to the code around.\<close>

lemma io_bind_raise: "io_bind (io_raise e) f = io_raise e"
  by (simp add: io_bind_def io_raise_def)

lemma handler_raises: "handler u e w = (Inl NameError, w)"
  by (simp add: handler_def puppeteer_def io_bind_raise) (simp add: io_raise_def)

lemma setup_puppeteer_raises: "setup_puppeteer env w = (Inl NameError, w)"
  by (simp add: setup_puppeteer_def puppeteer_def io_bind_raise) (simp add: io_raise_def)

lemma extract_page_raises: "extract_page env u w = (Inl AttributeError, w)"
  by (simp add: extract_page_def extract_metadata_def io_bind_raise Let_def)
     (simp add: io_raise_def)

lemma isl_bind:
  assumes "\<And>x w'. isl (fst (f x w'))"
  shows "isl (fst (io_bind m f w))"
  using assms by (cases "m w") (auto simp: io_bind_def split: sum.splits)

lemma handle_anti_bot_raises: "isl (fst (handle_anti_bot env w))"
  unfolding handle_anti_bot_def handle_cookie_popups_def io_bind_raise
  by (intro isl_bind) (simp add: io_raise_def)

lemma handle_anti_bot_cookie_popups:
  assumes "fails env WaitForFunction = None" and "fails env EvaluateScroll = None"
    and "fails env Sleep = None"
  shows "handle_anti_bot env w =
     (Inl AttributeError, w\<lparr>trace := trace w @ [WaitForFunction, EvaluateScroll, Sleep]\<rparr>)"
  using assms
  by (simp add: handle_anti_bot_def simulate_scrolling_def handle_cookie_popups_def call_def
      emit_def io_bind_def io_return_def io_raise_def)

lemma handle_challenges_found:
  assumes "fails env EvaluateCaptcha = None"
    and "captcha_present env \<or> fails env EvaluateCloudflare = None"
    and "captcha_present env \<or> cf_wrapper_present env"
  shows "fst (handle_challenges env w) =
     Inl (ScrapingError
            (if captcha_present env then ''CAPTCHA detected''
             else ''Cloudflare protection detected'') (page_url env) None)"
  using assms
  by (auto simp: handle_challenges_def call_def emit_def io_bind_def io_return_def io_raise_def)

lemma isl_bind_first:
  assumes "\<And>w'. isl (fst (m w'))"
  shows "isl (fst (io_bind m f w))"
  using assms [of w] by (cases "m w") (auto simp: io_bind_def split: sum.splits)

lemma scrape_try_raises: "isl (fst (scrape_try env u w))"
  unfolding scrape_try_def
  by (intro isl_bind)
     (simp add: io_raise_def isl_bind_first [of "handle_anti_bot env"] handle_anti_bot_raises)

text \<open>Every call of \<open>scrape\<close> ends in the handler.\<close>

lemma try_block_unfold:
  "try_block env x w =
     scrape_try env (fst (normalize_url (head env) x))
       (w\<lparr>trace := trace w @ map Head (snd (normalize_url (head env) x))\<rparr>)"
  by (simp add: try_block_def split: prod.splits)

lemma scrape_unfold: "scrape env x w = (Inl NameError, snd (try_block env x w))"
proof -
  let ?u = "fst (normalize_url (head env) x)"
  let ?w0 = "w\<lparr>trace := trace w @ map Head (snd (normalize_url (head env) x))\<rparr>"
  obtain r w' where t: "scrape_try env ?u ?w0 = (r, w')" by (cases "scrape_try env ?u ?w0")
  then obtain e where r: "r = Inl e"
    using scrape_try_raises [of env ?u ?w0] by (cases r) simp_all
  have "scrape env x w = handler ?u e w'"
    using t r by (cases "normalize_url (head env) x") (simp add: scrape_def)
  then show ?thesis using t by (simp add: handler_raises try_block_unfold)
qed

text \<open>Once the page is open and set up, the \<open>try\<close> block goes on from the navigation.\<close>

lemma scrape_try_opened:
  assumes "page_opens env w"
  shows "scrape_try env u w =
     (case navigate env u (opened env w) of
        (Inl e, w') \<Rightarrow> (Inl e, w')
      | (Inr status, w') \<Rightarrow>
          if status \<ge> 400
          then (Inl (ScrapingError (''HTTP '' @ str_int status) u (Some status)), w')
          else io_bind (handle_anti_bot env) (\<lambda>_. extract_page env u) w')"
proof -
  have "scrape_try env u w =
      io_bind (io_bind (new_page env) (\<lambda>_. setup_page env)) (\<lambda>_.
        io_bind (navigate env u) (\<lambda>status.
          if status \<ge> 400
          then io_raise (ScrapingError (''HTTP '' @ str_int status) u (Some status))
          else io_bind (handle_anti_bot env) (\<lambda>_. extract_page env u))) w"
    by (simp add: scrape_try_def io_bind_def split: prod.splits sum.splits)
  then show ?thesis
    using open_and_setup [OF assms]
    by (simp add: io_bind_def io_raise_def split: prod.splits sum.splits)
qed

lemma try_block_opened:
  assumes "page_opens env w"
  shows "try_block env x w =
     (case navigate env (fst (normalize_url (head env) x))
             (opened env (w\<lparr>trace := trace w @ map Head (snd (normalize_url (head env) x))\<rparr>)) of
        (Inl e, w') \<Rightarrow> (Inl e, w')
      | (Inr status, w') \<Rightarrow>
          if status \<ge> 400
          then (Inl (ScrapingError (''HTTP '' @ str_int status)
                       (fst (normalize_url (head env) x)) (Some status)), w')
          else io_bind (handle_anti_bot env)
                 (\<lambda>_. extract_page env (fst (normalize_url (head env) x))) w')"
  using assms by (simp add: try_block_unfold scrape_try_opened page_opens_trace)

lemma new_events_opened:
  "new_events w ((opened env (w\<lparr>trace := trace w @ hs\<rparr>))\<lparr>trace :=
       trace (opened env (w\<lparr>trace := trace w @ hs\<rparr>)) @ evs\<rparr>)
     = hs @ setup_events env w @ evs"
  by (simp add: new_events_def opened_def setup_events_trace)

lemma navigate_response:
  assumes "goto env u = Response status"
  shows "navigate env u w = (Inr status, w\<lparr>trace := trace w @ [Goto u]\<rparr>)"
  using assms by (simp add: navigate_def page_goto_def io_bind_def emit_def io_return_def)

lemma navigate_raises:
  assumes "goto env u = GotoRaises e"
  shows "navigate env u w = (Inl e, w\<lparr>trace := trace w @ [Goto u]\<rparr>)"
  using assms by (simp add: navigate_def page_goto_def io_bind_def emit_def io_raise_def)

lemma try_alternatives_no_response:
  assumes "list_all (no_response env) alts"
  shows "try_alternatives env alts w = (Inr None, w\<lparr>trace := trace w @ map Goto alts\<rparr>)"
  using assms
proof (induction alts arbitrary: w)
  case Nil
  then show ?case by simp
next
  case (Cons a alts)
  then show ?case
    by (cases "goto env a")
      (simp_all add: no_response_def page_goto_def io_bind_def emit_def io_raise_def
        io_return_def)
qed

lemma navigate_no_response:
  assumes "goto env u = NoResponse"
    and "urlparse_path env u = Inr path"
    and "list_all (no_response env)
           (if path = [] \<or> path = ''/''
            then [u @ ''/index.html'', u @ ''/home'', u @ ''/main''] else [])"
  shows "navigate env u w =
     (Inl (ScrapingError ''Failed to load page'' u None),
      w\<lparr>trace := trace w @ Goto u # map Goto
          (if path = [] \<or> path = ''/''
           then [u @ ''/index.html'', u @ ''/home'', u @ ''/main''] else [])\<rparr>)"
  using assms(1,2) try_alternatives_no_response [OF assms(3)]
  by (simp add: navigate_def page_goto_def io_bind_def emit_def io_raise_def io_return_def
      alternatives_def)

text \<open>What each part of \<open>scrape\<close> can add to the trace.\<close>

lemma emits_onlyD:
  "emits_only Q m \<Longrightarrow> \<exists>evs. trace (snd (m w)) = trace w @ evs \<and> list_all Q evs"
  by (simp add: emits_only_def)

lemma emits_only_return: "emits_only Q (io_return x)"
  by (simp add: emits_only_def io_return_def)

lemma emits_only_raise: "emits_only Q (io_raise e)"
  by (simp add: emits_only_def io_raise_def)

lemma emits_only_set_browser: "emits_only Q (set_browser b)"
  by (simp add: emits_only_def set_browser_def)

lemma emits_only_bind:
  assumes "emits_only Q m" and "\<And>x. emits_only Q (f x)"
  shows "emits_only Q (io_bind m f)"
  unfolding emits_only_def
proof
  fix w
  obtain r w1 where mw: "m w = (r, w1)" by (cases "m w")
  from assms(1) obtain evs1 where e1: "trace w1 = trace w @ evs1" "list_all Q evs1"
    using emits_onlyD [of Q m w] mw by auto
  show "\<exists>evs. trace (snd (io_bind m f w)) = trace w @ evs \<and> list_all Q evs"
  proof (cases r)
    case (Inl e)
    with mw e1 show ?thesis by (auto simp: io_bind_def)
  next
    case (Inr x)
    from assms(2) obtain evs2 where e2: "trace (snd (f x w1)) = trace w1 @ evs2" "list_all Q evs2"
      using emits_onlyD [of Q "f x" w1] by auto
    have "io_bind m f w = f x w1" using mw Inr by (simp add: io_bind_def)
    with e1 e2 show ?thesis by auto
  qed
qed

lemma emits_only_call: "Q ev \<Longrightarrow> emits_only Q (call env ev)"
  by (auto simp: emits_only_def call_def io_bind_def emit_def io_return_def io_raise_def
      split: option.splits)

lemma emits_only_new_page: "Q NewPage \<Longrightarrow> emits_only Q (new_page env)"
  unfolding emits_only_def
proof
  fix w assume q: "Q NewPage"
  have b: "emits_only Q (io_bind (call env NewPage) (\<lambda>_. set_browser (Browser (Suc n))))" for n
    by (intro emits_only_bind emits_only_call q emits_only_set_browser)
  show "\<exists>evs. trace (snd (new_page env w)) = trace w @ evs \<and> list_all Q evs"
    using emits_onlyD [OF b, of _ w]
    by (cases "browser (self w)") (simp_all add: new_page_def)
qed

lemma emits_only_setup_page:
  assumes "\<And>a. Q (SetUserAgent a)" "Q SetViewport" "Q SetExtraHTTPHeaders"
    "Q EvaluateOnNewDocument"
  shows "emits_only Q (setup_page env)"
  unfolding emits_only_def
proof
  fix w :: world
  let ?m = "io_bind (call env (SetUserAgent (user_agents (config (self w)) !
                (choice env mod length (user_agents (config (self w))))))) (\<lambda>_.
            io_bind (call env SetViewport) (\<lambda>_.
            io_bind (call env SetExtraHTTPHeaders) (\<lambda>_.
            inject_stealth_scripts env)))"
  have b: "emits_only Q ?m"
    unfolding inject_stealth_scripts_def
    by (intro emits_only_bind emits_only_call assms)
  show "\<exists>evs. trace (snd (setup_page env w)) = trace w @ evs \<and> list_all Q evs"
    using emits_onlyD [OF b, of w]
    by (cases "user_agents (config (self w)) = []") (simp_all add: setup_page_def Let_def)
qed

lemma emits_only_page_goto: "Q (Goto u) \<Longrightarrow> emits_only Q (page_goto env u)"
  by (auto simp: emits_only_def page_goto_def io_bind_def emit_def io_return_def io_raise_def
      split: goto_result.splits)

lemma emits_only_alternatives: "emits_only Q (alternatives env u)"
  by (auto simp: emits_only_def alternatives_def io_return_def io_raise_def split: sum.splits)

lemma emits_only_try_alternatives:
  assumes "\<And>u. Q (Goto u)"
  shows "emits_only Q (try_alternatives env alts)"
proof (induction alts)
  case Nil
  show ?case by (simp add: emits_only_def)
next
  case (Cons a alts)
  show ?case
    unfolding emits_only_def
  proof
    fix w
    obtain r w1 where g: "page_goto env a w = (r, w1)" by (cases "page_goto env a w")
    obtain evs1 where e1: "trace w1 = trace w @ evs1" "list_all Q evs1"
      using emits_onlyD [OF emits_only_page_goto [of Q a env], of w] assms g by auto
    obtain evs2 where e2: "trace (snd (try_alternatives env alts w1)) = trace w1 @ evs2"
        "list_all Q evs2"
      using emits_onlyD [OF Cons.IH, of w1] by auto
    show "\<exists>evs. trace (snd (try_alternatives env (a # alts) w)) = trace w @ evs
            \<and> list_all Q evs"
      using g e1 e2 by (auto split: sum.splits option.splits)
  qed
qed

lemma emits_only_navigate:
  assumes "\<And>u. Q (Goto u)"
  shows "emits_only Q (navigate env u)"
  unfolding navigate_def
  by (intro emits_only_bind emits_only_page_goto assms)
     (auto intro!: emits_only_bind emits_only_return emits_only_raise emits_only_alternatives
        emits_only_try_alternatives assms split: option.splits)

text \<open>
  \<open>_handle_anti_bot\<close> stops at the lookup of \<open>_handle_cookie_popups\<close>, and the
  extraction at the lookup of \<open>_extract_metadata\<close>.
\<close>

lemma handle_anti_bot_unfold:
  "handle_anti_bot env =
     io_bind (call env WaitForFunction) (\<lambda>_.
     io_bind (simulate_scrolling env) (\<lambda>_. io_raise AttributeError))"
  by (simp add: handle_anti_bot_def handle_cookie_popups_def io_bind_raise)

lemma emits_only_handle_anti_bot:
  assumes "Q WaitForFunction" "Q EvaluateScroll" "Q Sleep"
  shows "emits_only Q (handle_anti_bot env)"
  unfolding handle_anti_bot_unfold simulate_scrolling_def
  by (intro emits_only_bind emits_only_call emits_only_raise assms)

lemma extract_page_unfold: "extract_page env u = io_raise AttributeError"
  by (rule ext) (simp add: extract_page_raises io_raise_def)

lemma emits_only_scrape_try:
  assumes "Q NewPage" "\<And>a. Q (SetUserAgent a)" "Q SetViewport" "Q SetExtraHTTPHeaders"
    "Q EvaluateOnNewDocument" "\<And>u. Q (Goto u)" "Q WaitForFunction" "Q EvaluateScroll"
    "Q Sleep"
  shows "emits_only Q (scrape_try env u)"
  unfolding scrape_try_def extract_page_unfold
  by (intro emits_only_bind emits_only_new_page emits_only_setup_page emits_only_navigate
      assms)
     (auto intro!: emits_only_bind emits_only_raise emits_only_handle_anti_bot assms)

text \<open>The events of a call of \<open>scrape\<close>: the HEAD requests, then those of the \<open>try\<close> block.\<close>

lemma scrape_events:
  assumes "Q NewPage" "\<And>a. Q (SetUserAgent a)" "Q SetViewport" "Q SetExtraHTTPHeaders"
    "Q EvaluateOnNewDocument" "\<And>u. Q (Goto u)" "Q WaitForFunction" "Q EvaluateScroll"
    "Q Sleep"
  shows "\<exists>evs. new_events w (snd (scrape env x w))
                 = map Head (snd (normalize_url (head env) x)) @ evs \<and> list_all Q evs"
proof -
  let ?w0 = "w\<lparr>trace := trace w @ map Head (snd (normalize_url (head env) x))\<rparr>"
  have "emits_only Q (scrape_try env (fst (normalize_url (head env) x)))"
    by (rule emits_only_scrape_try) (rule assms)+
  then obtain evs where
    "trace (snd (scrape_try env (fst (normalize_url (head env) x)) ?w0)) = trace ?w0 @ evs"
    "list_all Q evs"
    using emits_onlyD by blast
  then show ?thesis
    by (auto simp: scrape_unfold try_block_unfold new_events_def)
qed

text \<open>After \<open>newPage\<close>, nothing that a call of \<open>scrape\<close> reaches assigns \<open>self.browser\<close>.\<close>

lemma keeps_selfD: "keeps_self m \<Longrightarrow> self (snd (m w)) = self w"
  by (simp add: keeps_self_def)

lemma keeps_self_return: "keeps_self (io_return x)"
  by (simp add: keeps_self_def io_return_def)

lemma keeps_self_raise: "keeps_self (io_raise e)"
  by (simp add: keeps_self_def io_raise_def)

lemma keeps_self_bind:
  assumes "keeps_self m" and "\<And>x. keeps_self (f x)"
  shows "keeps_self (io_bind m f)"
  unfolding keeps_self_def
proof
  fix w
  obtain r w1 where mw: "m w = (r, w1)" by (cases "m w")
  have s1: "self w1 = self w" using keeps_selfD [OF assms(1), of w] mw by simp
  show "self (snd (io_bind m f w)) = self w"
  proof (cases r)
    case (Inl e)
    with mw s1 show ?thesis by (simp add: io_bind_def)
  next
    case (Inr x)
    have "io_bind m f w = f x w1" using mw Inr by (simp add: io_bind_def)
    then show ?thesis using keeps_selfD [OF assms(2), of x w1] s1 by simp
  qed
qed

lemma keeps_self_call: "keeps_self (call env ev)"
  by (auto simp: keeps_self_def call_def io_bind_def emit_def io_return_def io_raise_def
      split: option.splits)

lemma keeps_self_setup_page: "keeps_self (setup_page env)"
  unfolding keeps_self_def
proof
  fix w :: world
  let ?m = "io_bind (call env (SetUserAgent (user_agents (config (self w)) !
                (choice env mod length (user_agents (config (self w))))))) (\<lambda>_.
            io_bind (call env SetViewport) (\<lambda>_.
            io_bind (call env SetExtraHTTPHeaders) (\<lambda>_.
            inject_stealth_scripts env)))"
  have b: "keeps_self ?m"
    unfolding inject_stealth_scripts_def
    by (intro keeps_self_bind keeps_self_call)
  show "self (snd (setup_page env w)) = self w"
    using keeps_selfD [OF b, of w]
    by (cases "user_agents (config (self w)) = []") (simp_all add: setup_page_def Let_def)
qed

lemma keeps_self_page_goto: "keeps_self (page_goto env u)"
  by (auto simp: keeps_self_def page_goto_def io_bind_def emit_def io_return_def io_raise_def
      split: goto_result.splits)

lemma keeps_self_alternatives: "keeps_self (alternatives env u)"
  by (auto simp: keeps_self_def alternatives_def io_return_def io_raise_def split: sum.splits)

lemma keeps_self_try_alternatives: "keeps_self (try_alternatives env alts)"
proof (induction alts)
  case Nil
  show ?case by (simp add: keeps_self_def)
next
  case (Cons a alts)
  show ?case
    unfolding keeps_self_def
  proof
    fix w
    obtain r w1 where g: "page_goto env a w = (r, w1)" by (cases "page_goto env a w")
    have s1: "self w1 = self w"
      using keeps_selfD [OF keeps_self_page_goto, of env a w] g by simp
    have s2: "self (snd (try_alternatives env alts w1)) = self w1"
      using keeps_selfD [OF Cons.IH, of w1] .
    show "self (snd (try_alternatives env (a # alts) w)) = self w"
      using g s1 s2 by (auto split: sum.splits option.splits)
  qed
qed

lemma keeps_self_navigate: "keeps_self (navigate env u)"
  unfolding navigate_def
  by (intro keeps_self_bind keeps_self_page_goto)
     (auto intro!: keeps_self_bind keeps_self_return keeps_self_raise keeps_self_alternatives
        keeps_self_try_alternatives split: option.splits)

lemma keeps_self_handle_anti_bot: "keeps_self (handle_anti_bot env)"
  unfolding handle_anti_bot_unfold simulate_scrolling_def
  by (intro keeps_self_bind keeps_self_call keeps_self_raise)

lemma keeps_self_after_new_page:
  "keeps_self (io_bind (setup_page env) (\<lambda>_.
     io_bind (navigate env u) (\<lambda>status.
       if status \<ge> 400
       then io_raise (ScrapingError (''HTTP '' @ str_int status) u (Some status))
       else io_bind (handle_anti_bot env) (\<lambda>_. extract_page env u))))"
  unfolding extract_page_unfold
  by (intro keeps_self_bind keeps_self_setup_page keeps_self_navigate)
     (auto intro!: keeps_self_bind keeps_self_raise keeps_self_handle_anti_bot)

lemma scrape_opens_page:
  assumes "browser (self w) = Browser n" and "fails env NewPage = None"
  shows "self (snd (scrape env x w)) = (self w)\<lparr>browser := Browser (Suc n)\<rparr>"
proof -
  let ?u = "fst (normalize_url (head env) x)"
  let ?w0 = "w\<lparr>trace := trace w @ map Head (snd (normalize_url (head env) x))\<rparr>"
  let ?w1 = "?w0\<lparr>trace := trace ?w0 @ [NewPage],
                 self := (self w)\<lparr>browser := Browser (Suc n)\<rparr>\<rparr>"
  let ?rest = "io_bind (setup_page env) (\<lambda>_.
     io_bind (navigate env ?u) (\<lambda>status.
       if status \<ge> 400
       then io_raise (ScrapingError (''HTTP '' @ str_int status) ?u (Some status))
       else io_bind (handle_anti_bot env) (\<lambda>_. extract_page env ?u)))"
  have "new_page env ?w0 = (Inr (), ?w1)"
    using assms
    by (simp add: new_page_def call_def emit_def io_bind_def io_return_def set_browser_def)
  then have "scrape_try env ?u ?w0 = ?rest ?w1"
    by (simp add: scrape_try_def io_bind_def)
  then have "self (snd (scrape_try env ?u ?w0)) = self ?w1"
    using keeps_selfD [OF keeps_self_after_new_page, of env ?u ?w1] by simp
  then show ?thesis by (simp add: scrape_unfold try_block_unfold)
qed

text \<open>Without an assignment to \<open>self.browser\<close>, no method of the class makes one.\<close>

lemma scrape_unset:
  assumes "browser (self w) = Unset"
  shows "scrape env x w =
     (Inl NameError, w\<lparr>trace := trace w @ map Head (snd (normalize_url (head env) x))\<rparr>)"
  using assms
  by (simp add: scrape_unfold try_block_unfold scrape_try_def new_page_def io_bind_def)

lemma try_block_unset:
  assumes "browser (self w) = Unset"
  shows "fst (try_block env x w) = Inl AttributeError"
  using assms by (simp add: try_block_unfold scrape_try_def new_page_def io_bind_def)

lemma close_unset:
  assumes "browser (self w) = Unset"
  shows "close env w = (Inl AttributeError, w)"
  using assms by (simp add: close_def)

lemma perform_unset:
  assumes "browser (self w) = Unset"
  shows "browser (self (perform r w)) = Unset"
  using assms
  by (cases r) (simp_all add: scrape_unset close_unset setup_puppeteer_raises)

lemma run_requests_unset:
  assumes "browser (self w) = Unset"
  shows "browser (self (run_requests rs w)) = Unset"
  using assms unfolding run_requests_def
  by (induction rs arbitrary: w) (simp_all add: perform_unset)

lemma try_alternatives_prefix:
  "\<exists>k. trace (snd (try_alternatives env alts w)) = trace w @ map Goto (take k alts)"
proof (induction alts arbitrary: w)
  case Nil
  show ?case by simp
next
  case (Cons a alts)
  let ?w1 = "w\<lparr>trace := trace w @ [Goto a]\<rparr>"
  show ?case
  proof (cases "goto env a")
    case (Response status)
    then have "trace (snd (try_alternatives env (a # alts) w))
                 = trace w @ map Goto (take 1 (a # alts))"
      by (simp add: page_goto_def io_bind_def emit_def io_return_def)
    then show ?thesis by blast
  next
    case NoResponse
    then have t: "try_alternatives env (a # alts) w = try_alternatives env alts ?w1"
      by (simp add: page_goto_def io_bind_def emit_def io_return_def)
    obtain k where "trace (snd (try_alternatives env alts ?w1))
                      = trace ?w1 @ map Goto (take k alts)"
      using Cons.IH [of ?w1] by blast
    then have "trace (snd (try_alternatives env (a # alts) w))
                 = trace w @ map Goto (take (Suc k) (a # alts))"
      using t by simp
    then show ?thesis by blast
  next
    case (GotoRaises e)
    then have t: "try_alternatives env (a # alts) w = try_alternatives env alts ?w1"
      by (simp add: page_goto_def io_bind_def emit_def io_raise_def)
    obtain k where "trace (snd (try_alternatives env alts ?w1))
                      = trace ?w1 @ map Goto (take k alts)"
      using Cons.IH [of ?w1] by blast
    then have "trace (snd (try_alternatives env (a # alts) w))
                 = trace w @ map Goto (take (Suc k) (a # alts))"
      using t by simp
    then show ?thesis by blast
  qed
qed

lemma navigate_alternatives_prefix:
  assumes "goto env u = NoResponse" and "urlparse_path env u = Inr path"
  shows "\<exists>k. trace (snd (navigate env u w)) =
           trace w @ map Goto (u # take k
             (if path = [] \<or> path = ''/''
              then [u @ ''/index.html'', u @ ''/home'', u @ ''/main''] else []))"
proof -
  let ?alts = "if path = [] \<or> path = ''/''
              then [u @ ''/index.html'', u @ ''/home'', u @ ''/main''] else []"
  let ?w1 = "w\<lparr>trace := trace w @ [Goto u]\<rparr>"
  obtain k where k: "trace (snd (try_alternatives env ?alts ?w1))
                       = trace ?w1 @ map Goto (take k ?alts)"
    using try_alternatives_prefix [of env ?alts ?w1] by blast
  have "trace (snd (navigate env u w)) = trace (snd (try_alternatives env ?alts ?w1))"
    using assms
    by (simp add: navigate_def page_goto_def io_bind_def emit_def io_return_def io_raise_def
        alternatives_def split: prod.splits sum.splits option.splits)
  with k have "trace (snd (navigate env u w)) = trace w @ map Goto (u # take k ?alts)"
    by simp
  then show ?thesis by blast
qed

lemma scrape_navigations_prefix:
  assumes "page_opens env w"
    and "goto env (fst (normalize_url (head env) x)) = NoResponse"
    and "urlparse_path env (fst (normalize_url (head env) x)) = Inr path"
  shows "\<exists>k. navigations (new_events w (snd (scrape env x w))) =
           fst (normalize_url (head env) x) # take k
             (if path = [] \<or> path = ''/''
              then [fst (normalize_url (head env) x) @ ''/index.html'',
                    fst (normalize_url (head env) x) @ ''/home'',
                    fst (normalize_url (head env) x) @ ''/main'']
              else [])"
proof -
  let ?u = "fst (normalize_url (head env) x)"
  let ?probed = "snd (normalize_url (head env) x)"
  let ?w0 = "w\<lparr>trace := trace w @ map Head ?probed\<rparr>"
  let ?alts = "if path = [] \<or> path = ''/''
              then [?u @ ''/index.html'', ?u @ ''/home'', ?u @ ''/main''] else []"
  let ?NG = "\<lambda>ev. \<forall>u. ev \<noteq> Goto u"
  have po: "page_opens env ?w0" using assms(1) by (simp add: page_opens_trace)
  obtain r1 w1 where nv: "navigate env ?u (opened env ?w0) = (r1, w1)"
    by (cases "navigate env ?u (opened env ?w0)")
  obtain k where k: "trace w1 = trace (opened env ?w0) @ map Goto (?u # take k ?alts)"
    using navigate_alternatives_prefix [OF assms(2) assms(3), of "opened env ?w0"] nv by auto
  have rest: "emits_only ?NG (io_bind (handle_anti_bot env) (\<lambda>_. extract_page env ?u))"
    unfolding extract_page_unfold
    by (intro emits_only_bind emits_only_handle_anti_bot emits_only_raise) simp_all
  obtain evs where evs: "trace (snd (io_bind (handle_anti_bot env)
        (\<lambda>_. extract_page env ?u) w1)) = trace w1 @ evs" "list_all ?NG evs"
    using emits_onlyD [OF rest, of w1] by blast
  obtain r w' where t: "scrape_try env ?u ?w0 = (r, w')" by (cases "scrape_try env ?u ?w0")
  have tw1: "trace w1 = trace w @ (map Head ?probed @ setup_events env ?w0
                 @ map Goto (?u # take k ?alts))"
    using k by (simp add: opened_def)
  have "trace w' = trace w1 \<or> trace w' = trace w1 @ evs"
    using t nv evs(1) by (auto simp: scrape_try_opened [OF po] split: sum.splits if_splits)
  then have "new_events w w' = map Head ?probed @ setup_events env ?w0
                 @ map Goto (?u # take k ?alts)
           \<or> new_events w w' = map Head ?probed @ setup_events env ?w0
                 @ map Goto (?u # take k ?alts) @ evs"
    unfolding new_events_def tw1 by auto
  then have "navigations (new_events w w') = ?u # take k ?alts"
    using navigations_no_goto [OF evs(2)] navigations_Goto [of "?u # take k ?alts"]
    by (auto simp only: navigations_append navigations_Head navigations_setup
        append_Nil append_Nil2)
  moreover have "snd (scrape env x w) = w'"
    using t by (simp add: scrape_unfold try_block_unfold)
  ultimately show ?thesis by auto
qed

text \<open>
  C1: the page a call of \<open>scrape\<close> opens is closed on every exit path. In the code
  \<open>page.close()\<close> is the last statement of the \<open>try\<close> block and there is no
  \<open>finally\<close>; the statements before it cannot all complete, so no call reaches it.
  Whenever \<open>self.browser\<close> holds a running browser and \<open>newPage\<close> does not raise,
  \<open>scrape\<close> opens a page, ends with an exception, makes no call of \<open>page.close\<close>,
  and leaves one page more open than before.
\<close>

theorem C1_opened_page_never_closed:
  assumes "browser (self w) = Browser n"
    and "fails env NewPage = None"
  shows "fst (scrape env x w) = Inl NameError
       \<and> NewPage \<in> set (new_events w (snd (scrape env x w)))
       \<and> PageClose \<notin> set (new_events w (snd (scrape env x w)))
       \<and> open_pages (snd (scrape env x w)) = Suc (open_pages w)"
proof -
  let ?u = "fst (normalize_url (head env) x)"
  let ?probed = "snd (normalize_url (head env) x)"
  let ?w0 = "w\<lparr>trace := trace w @ map Head ?probed\<rparr>"
  obtain evs where evs: "new_events w (snd (scrape env x w)) = map Head ?probed @ evs"
      "list_all (\<lambda>ev. ev \<noteq> PageClose) evs"
    using scrape_events [of "\<lambda>ev. ev \<noteq> PageClose" w env x] by auto
  have c: "PageClose \<notin> set (new_events w (snd (scrape env x w)))"
    using evs by (auto simp: list_all_iff)
  have "emits_only (\<lambda>_. True) (io_bind (setup_page env) (\<lambda>_.
     io_bind (navigate env ?u) (\<lambda>status.
       if status \<ge> 400
       then io_raise (ScrapingError (''HTTP '' @ str_int status) ?u (Some status))
       else io_bind (handle_anti_bot env) (\<lambda>_. extract_page env ?u))))" (is "emits_only _ ?rest")
    unfolding extract_page_unfold
    by (intro emits_only_bind emits_only_setup_page emits_only_navigate)
       (auto intro!: emits_only_bind emits_only_raise emits_only_handle_anti_bot)
  then obtain evs' where evs': "trace (snd (?rest (?w0\<lparr>trace := trace ?w0 @ [NewPage],
        self := (self w)\<lparr>browser := Browser (Suc n)\<rparr>\<rparr>)))
      = (trace ?w0 @ [NewPage]) @ evs'"
    using emits_onlyD
      [of "\<lambda>_. True" ?rest "?w0\<lparr>trace := trace ?w0 @ [NewPage],
        self := (self w)\<lparr>browser := Browser (Suc n)\<rparr>\<rparr>"]
    by auto
  have np: "new_page env ?w0 = (Inr (), ?w0\<lparr>trace := trace ?w0 @ [NewPage],
        self := (self w)\<lparr>browser := Browser (Suc n)\<rparr>\<rparr>)"
    using assms
    by (simp add: new_page_def call_def emit_def io_bind_def io_return_def set_browser_def)
  have "scrape_try env ?u ?w0 = ?rest (?w0\<lparr>trace := trace ?w0 @ [NewPage],
        self := (self w)\<lparr>browser := Browser (Suc n)\<rparr>\<rparr>)"
    using np by (simp add: scrape_try_def io_bind_def)
  then have "trace (snd (scrape env x w)) = trace w @ map Head ?probed @ [NewPage] @ evs'"
    using evs' by (simp add: scrape_unfold try_block_unfold)
  then have b: "NewPage \<in> set (new_events w (snd (scrape env x w)))"
    by (simp add: new_events_def)
  have d: "open_pages (snd (scrape env x w)) = Suc (open_pages w)"
    using scrape_opens_page [OF assms, of x] assms(1) by (simp add: open_pages_def)
  show ?thesis using b c d by (simp add: scrape_unfold)
qed

theorem C1_opened_page_never_closed_witness:
  "browser (self with_browser) = Browser 0
   \<and> fails (env0 (\<lambda>_. Response 404)) NewPage = None
   \<and> fst (try_block (env0 (\<lambda>_. Response 404)) ''https://example.com'' with_browser)
       = Inl (ScrapingError ''HTTP 404'' ''https://example.com'' (Some 404))
   \<and> fst (scrape (env0 (\<lambda>_. Response 404)) ''https://example.com'' with_browser)
       = Inl NameError
   \<and> NewPage \<in> set (new_events with_browser
        (snd (scrape (env0 (\<lambda>_. Response 404)) ''https://example.com'' with_browser)))
   \<and> PageClose \<notin> set (new_events with_browser
        (snd (scrape (env0 (\<lambda>_. Response 404)) ''https://example.com'' with_browser)))
   \<and> open_pages with_browser = 0
   \<and> open_pages (snd (scrape (env0 (\<lambda>_. Response 404)) ''https://example.com''
        with_browser)) = 1
   \<and> fails (env0 (\<lambda>_. Response 200)) NewPage = None
   \<and> fst (scrape (env0 (\<lambda>_. Response 200)) ''https://example.com'' with_browser)
       = Inl NameError
   \<and> open_pages (snd (scrape (env0 (\<lambda>_. Response 200)) ''https://example.com''
        with_browser)) = 1"
proof -
  have a: "browser (self with_browser) = Browser 0" by code_simp
  have b: "fails (env0 (\<lambda>_. Response 404)) NewPage = None" by code_simp
  have b': "fails (env0 (\<lambda>_. Response 200)) NewPage = None" by code_simp
  have c: "fst (try_block (env0 (\<lambda>_. Response 404)) ''https://example.com'' with_browser)
       = Inl (ScrapingError ''HTTP 404'' ''https://example.com'' (Some 404))" by code_simp
  have d: "open_pages with_browser = 0" by code_simp
  show ?thesis
    using C1_opened_page_never_closed [OF a b, of "''https://example.com''"]
      C1_opened_page_never_closed [OF a b', of "''https://example.com''"] a b b' c d
    by simp
qed

text \<open>
  C3: after construction a live browser exists and the calls of \<open>scrape\<close> that follow
  can use it. The constructor calls \<open>_setup_puppeteer\<close> without awaiting it, and the
  coroutine, awaited, reads the unbound name \<open>puppeteer\<close> before it can assign
  anything. So after the construction and any number of awaited calls of \<open>scrape\<close>,
  \<open>close\<close> and \<open>_setup_puppeteer\<close>, \<open>self.browser\<close> is still unassigned:
  \<open>_setup_puppeteer\<close> raises \<open>NameError\<close> and changes nothing, the \<open>try\<close> block of
  \<open>scrape\<close> raises \<open>AttributeError\<close> at \<open>self.browser\<close>, \<open>scrape\<close> raises
  \<open>NameError\<close> to its caller after its HEAD requests and no call on a browser, and
  \<open>close\<close> raises \<open>AttributeError\<close>.
\<close>

theorem C3_no_browser_after_construction:
  assumes "w = run_requests rs (constructed cfg vault)"
  shows "browser (self w) = Unset
       \<and> setup_puppeteer env w = (Inl NameError, w)
       \<and> fst (try_block env x w) = Inl AttributeError
       \<and> scrape env x w =
           (Inl NameError, w\<lparr>trace := trace w @ map Head (snd (normalize_url (head env) x))\<rparr>)
       \<and> close env w = (Inl AttributeError, w)"
proof -
  have "browser (self (constructed cfg vault)) = Unset"
    by (simp add: constructed_def init_def)
  then have u: "browser (self w) = Unset"
    using assms run_requests_unset by simp
  show ?thesis
    using u scrape_unset [OF u] try_block_unset [OF u] close_unset [OF u]
    by (simp add: setup_puppeteer_raises)
qed

theorem C3_no_browser_after_construction_witness:
  "run_requests [SetupPuppeteer (env0 (\<lambda>_. Response 200)),
                 Scrape (env0 (\<lambda>_. Response 200)) ''https://example.com'',
                 Close (env0 (\<lambda>_. Response 200))] (constructed None None)
     = constructed None None
   \<and> browser (self (constructed None None)) = Unset
   \<and> setup_puppeteer (env0 (\<lambda>_. Response 200)) (constructed None None)
       = (Inl NameError, constructed None None)
   \<and> fst (try_block (env0 (\<lambda>_. Response 200)) ''https://example.com''
        (constructed None None)) = Inl AttributeError
   \<and> scrape (env0 (\<lambda>_. Response 200)) ''https://example.com'' (constructed None None)
       = (Inl NameError, constructed None None)
   \<and> close (env0 (\<lambda>_. Response 200)) (constructed None None)
       = (Inl AttributeError, constructed None None)"
proof -
  let ?env = "env0 (\<lambda>_. Response 200)"
  let ?rs = "[SetupPuppeteer ?env, Scrape ?env ''https://example.com'', Close ?env]"
  have r: "constructed None None = run_requests ?rs (constructed None None)"
    by code_simp
  have n: "snd (normalize_url (head ?env) ''https://example.com'') = []" by code_simp
  have t: "(constructed None None)\<lparr>trace := trace (constructed None None) @ map Head []\<rparr>
             = constructed None None"
    by (simp add: constructed_def)
  show ?thesis
    using C3_no_browser_after_construction
      [OF r, of ?env "''https://example.com''"] r n t
    by simp
qed

text \<open>
  C5: a navigation that times out makes \<open>scrape\<close> raise
  \<open>ScrapingError("Page load timeout", url)\<close>. The handler that is to do so reads
  the unbound name \<open>puppeteer\<close> in its test and raises \<open>NameError\<close>, whatever the
  exception it handles. When the page opens and the navigation to the normalised URL
  raises the browser's timeout, the \<open>try\<close> block raises that timeout, after this one
  navigation, and the caller receives \<open>NameError\<close>, as it does from every call
  of \<open>scrape\<close>, in any world.
\<close>

theorem C5_timeout_reaches_caller_as_NameError:
  assumes "page_opens env w"
    and "goto env (fst (normalize_url (head env) x)) = GotoRaises TimeoutError"
  shows "handler (fst (normalize_url (head env) x)) TimeoutError w' = (Inl NameError, w')
       \<and> fst (try_block env x w) = Inl TimeoutError
       \<and> fst (scrape env x v) = Inl NameError
       \<and> navigations (new_events w (snd (scrape env x w)))
           = [fst (normalize_url (head env) x)]"
  using assms
  by (simp add: scrape_unfold try_block_opened navigate_raises handler_raises
      new_events_opened navigations_append navigations_Head navigations_setup)
     (simp add: navigations_def)

theorem C5_timeout_witness:
  "page_opens (env0 (\<lambda>_. GotoRaises TimeoutError)) with_browser
   \<and> goto (env0 (\<lambda>_. GotoRaises TimeoutError)) ''https://example.com''
       = GotoRaises TimeoutError
   \<and> handler ''https://example.com'' TimeoutError with_browser = (Inl NameError, with_browser)
   \<and> fst (try_block (env0 (\<lambda>_. GotoRaises TimeoutError)) ''https://Example.com''
        with_browser) = Inl TimeoutError
   \<and> fst (scrape (env0 (\<lambda>_. GotoRaises TimeoutError)) ''https://Example.com'' with_browser)
       = Inl NameError
   \<and> navigations (new_events with_browser
        (snd (scrape (env0 (\<lambda>_. GotoRaises TimeoutError)) ''https://Example.com''
           with_browser))) = [''https://example.com'']"
proof -
  let ?env = "env0 (\<lambda>_. GotoRaises TimeoutError)"
  have a: "page_opens ?env with_browser" by code_simp
  have n: "fst (normalize_url (head ?env) ''https://Example.com'') = ''https://example.com''"
    by code_simp
  have b: "goto ?env ''https://example.com'' = GotoRaises TimeoutError" by code_simp
  have b': "goto ?env (fst (normalize_url (head ?env) ''https://Example.com''))
              = GotoRaises TimeoutError"
    using b n by simp
  show ?thesis
    using C5_timeout_reaches_caller_as_NameError
      [OF a b', where w' = with_browser and v = with_browser] a b n
    by simp
qed

text \<open>
  C7: when the navigation gives no response and the parsed path is empty or the root,
  \<open>scrape\<close> retries on \<open>url/index.html\<close>, \<open>url/home\<close> and \<open>url/main\<close>, in that
  order, and raises \<open>ScrapingError("Failed to load page", url)\<close> when none responds;
  for another path there is no alternative. The navigations are as specified:
  when the page opens and the first navigation gives no response, they are the one to
  the normalised URL and then the first few of the three alternatives, in that order,
  or none of them for another path; and when no alternative responds (each raises or
  returns nothing) all of them are tried and the \<open>try\<close> block raises the
  \<open>ScrapingError\<close>. The error does not reach the caller: the handler turns it into
  \<open>NameError\<close>, which is what every call of \<open>scrape\<close> raises, in any
  world.
\<close>

theorem C7_alternatives_then_NameError:
  assumes "page_opens env w"
    and "goto env (fst (normalize_url (head env) x)) = NoResponse"
    and "urlparse_path env (fst (normalize_url (head env) x)) = Inr path"
  shows "(\<exists>k. navigations (new_events w (snd (scrape env x w))) =
             fst (normalize_url (head env) x) # take k
               (if path = [] \<or> path = ''/''
                then [fst (normalize_url (head env) x) @ ''/index.html'',
                      fst (normalize_url (head env) x) @ ''/home'',
                      fst (normalize_url (head env) x) @ ''/main'']
                else []))
       \<and> fst (scrape env x v) = Inl NameError
       \<and> (list_all (no_response env)
             (if path = [] \<or> path = ''/''
              then [fst (normalize_url (head env) x) @ ''/index.html'',
                    fst (normalize_url (head env) x) @ ''/home'',
                    fst (normalize_url (head env) x) @ ''/main'']
              else [])
          \<longrightarrow> fst (try_block env x w) =
                Inl (ScrapingError ''Failed to load page''
                       (fst (normalize_url (head env) x)) None)
              \<and> navigations (new_events w (snd (scrape env x w))) =
                  fst (normalize_url (head env) x) #
                  (if path = [] \<or> path = ''/''
                   then [fst (normalize_url (head env) x) @ ''/index.html'',
                         fst (normalize_url (head env) x) @ ''/home'',
                         fst (normalize_url (head env) x) @ ''/main'']
                   else []))"
proof -
  let ?u = "fst (normalize_url (head env) x)"
  let ?w = "w\<lparr>trace := trace w @ map Head (snd (normalize_url (head env) x))\<rparr>"
  let ?alts = "if path = [] \<or> path = ''/''
               then [?u @ ''/index.html'', ?u @ ''/home'', ?u @ ''/main''] else []"
  have A: "\<exists>k. navigations (new_events w (snd (scrape env x w))) = ?u # take k ?alts"
    using scrape_navigations_prefix [OF assms] .
  have B: "fst (try_block env x w) = Inl (ScrapingError ''Failed to load page'' ?u None)
         \<and> navigations (new_events w (snd (scrape env x w))) = ?u # ?alts"
    if d: "list_all (no_response env) ?alts"
    using navigate_no_response [OF assms(2) assms(3) d, of "opened env ?w"]
    by (simp add: scrape_unfold try_block_opened [OF assms(1)] new_events_def opened_def
        navigations_append navigations_Head navigations_setup navigations_Goto)
       (simp add: navigations_def)
  have C: "fst (scrape env x v) = Inl NameError" by (simp add: scrape_unfold)
  show ?thesis using A B C by blast
qed

theorem C7_alternatives_witness:
  "page_opens (env0 (\<lambda>u. if u = ''https://example.com/home'' then GotoRaises TimeoutError
                         else NoResponse)) with_browser
   \<and> goto (env0 (\<lambda>u. if u = ''https://example.com/home'' then GotoRaises TimeoutError
                     else NoResponse)) ''https://example.com'' = NoResponse
   \<and> urlparse_path (env0 (\<lambda>u. if u = ''https://example.com/home''
                              then GotoRaises TimeoutError else NoResponse))
       ''https://example.com'' = Inr []
   \<and> list_all (no_response (env0 (\<lambda>u. if u = ''https://example.com/home''
                                      then GotoRaises TimeoutError else NoResponse)))
       [''https://example.com/index.html'', ''https://example.com/home'',
        ''https://example.com/main'']
   \<and> fst (try_block (env0 (\<lambda>u. if u = ''https://example.com/home''
                               then GotoRaises TimeoutError else NoResponse))
        ''https://example.com'' with_browser)
       = Inl (ScrapingError ''Failed to load page'' ''https://example.com'' None)
   \<and> fst (scrape (env0 (\<lambda>u. if u = ''https://example.com/home'' then GotoRaises TimeoutError
                            else NoResponse)) ''https://example.com'' with_browser)
       = Inl NameError
   \<and> navigations (new_events with_browser
        (snd (scrape (env0 (\<lambda>u. if u = ''https://example.com/home''
                                then GotoRaises TimeoutError else NoResponse))
           ''https://example.com'' with_browser)))
       = [''https://example.com'', ''https://example.com/index.html'',
          ''https://example.com/home'', ''https://example.com/main'']"
proof -
  let ?env = "env0 (\<lambda>u. if u = ''https://example.com/home'' then GotoRaises TimeoutError
                        else NoResponse)"
  let ?u = "fst (normalize_url (head ?env) ''https://example.com'')"
  have n: "?u = ''https://example.com''"
    by code_simp
  have a: "page_opens ?env with_browser" by code_simp
  have b: "goto ?env ''https://example.com'' = NoResponse" by code_simp
  have c: "urlparse_path ?env ''https://example.com'' = Inr []" by code_simp
  have d: "list_all (no_response ?env)
             [''https://example.com/index.html'', ''https://example.com/home'',
              ''https://example.com/main'']" by code_simp
  have b': "goto ?env ?u = NoResponse"
    using b n by simp
  have c': "urlparse_path ?env ?u = Inr []"
    using c n by simp
  have d': "list_all (no_response ?env)
           (if ([]::string) = [] \<or> ([]::string) = ''/''
            then [?u @ ''/index.html'', ?u @ ''/home'', ?u @ ''/main'']
            else [])"
    using d n by simp
  have "fst (scrape ?env ''https://example.com'' with_browser) = Inl NameError
      \<and> fst (try_block ?env ''https://example.com'' with_browser) =
          Inl (ScrapingError ''Failed to load page'' ?u None)
      \<and> navigations (new_events with_browser
          (snd (scrape ?env ''https://example.com'' with_browser))) =
          ?u # (if ([]::string) = [] \<or> ([]::string) = ''/''
                then [?u @ ''/index.html'', ?u @ ''/home'', ?u @ ''/main'']
                else [])"
    using C7_alternatives_then_NameError [OF a b' c', where v = with_browser] d' by blast
  then show ?thesis
    using a b c d n by simp
qed

text \<open>
  C8: a response with a status of 400 or more makes \<open>scrape\<close> raise
  \<open>ScrapingError("HTTP <status>", url, status)\<close>, without a retry on the alternative
  paths. When the page opens and the navigation to the normalised URL answers with
  such a status, the \<open>try\<close> block raises that \<open>ScrapingError\<close> and the call has
  navigated once only; the error does not reach the caller, since the handler turns
  it into \<open>NameError\<close>, which is what every call of \<open>scrape\<close> raises, in any
  world.
\<close>

theorem C8_http_error_reaches_caller_as_NameError:
  assumes "page_opens env w"
    and "goto env (fst (normalize_url (head env) x)) = Response status"
    and "400 \<le> status"
  shows "fst (try_block env x w) =
           Inl (ScrapingError (''HTTP '' @ str_int status)
                  (fst (normalize_url (head env) x)) (Some status))
         \<and> fst (scrape env x v) = Inl NameError
         \<and> navigations (new_events w (snd (scrape env x w)))
             = [fst (normalize_url (head env) x)]"
  using assms
  by (simp add: scrape_unfold try_block_opened navigate_response
      new_events_opened navigations_append navigations_Head navigations_setup)
     (simp add: navigations_def)

theorem C8_http_error_witness:
  "page_opens (env0 (\<lambda>_. Response 404)) with_browser
   \<and> goto (env0 (\<lambda>_. Response 404)) ''https://example.com'' = Response 404
   \<and> (400::int) \<le> 404
   \<and> fst (try_block (env0 (\<lambda>_. Response 404)) ''https://example.com'' with_browser)
       = Inl (ScrapingError ''HTTP 404'' ''https://example.com'' (Some 404))
   \<and> fst (scrape (env0 (\<lambda>_. Response 404)) ''https://example.com'' with_browser)
       = Inl NameError
   \<and> navigations (new_events with_browser
        (snd (scrape (env0 (\<lambda>_. Response 404)) ''https://example.com''
           with_browser))) = [''https://example.com'']"
proof -
  let ?env = "env0 (\<lambda>_. Response 404)"
  have n: "fst (normalize_url (head ?env) ''https://example.com'') = ''https://example.com''"
    by code_simp
  have a: "page_opens ?env with_browser" by code_simp
  have b: "goto ?env ''https://example.com'' = Response 404" by code_simp
  have s: "str_int 404 = ''404''" by code_simp
  have b': "goto ?env (fst (normalize_url (head ?env) ''https://example.com'')) = Response 404"
    using b n by simp
  have c: "(400::int) \<le> 404" by simp
  show ?thesis
    using C8_http_error_reaches_caller_as_NameError [OF a b' c, where v = with_browser]
      a b n s
    by simp
qed

text \<open>
  C9: with a CAPTCHA selector or the Cloudflare wrapper on the loaded page, \<open>scrape\<close>
  fails with a \<open>ScrapingError\<close> that carries the page's current URL, and extracts
  nothing. \<open>_handle_challenges\<close> does raise that error when it is called: with a
  selector present and its probes completing, it raises the \<open>ScrapingError\<close> with
  \<open>page.url\<close>. But \<open>scrape\<close> never calls it: when the page opens, the navigation
  answers with a status below 400 and the wait and the scrolling complete, the \<open>try\<close>
  block raises \<open>AttributeError\<close> at the lookup of \<open>_handle_cookie_popups\<close>, the call
  has sent no probe for a challenge, and the caller receives \<open>NameError\<close>. No call of
  \<open>scrape\<close>, in any world, sends the CAPTCHA probe or the Cloudflare probe.
\<close>

theorem C9_challenge_check_not_reached:
  assumes "page_opens env w"
    and "goto env (fst (normalize_url (head env) x)) = Response status"
    and "status < 400"
    and "fails env WaitForFunction = None"
    and "fails env EvaluateScroll = None"
    and "fails env Sleep = None"
    and "captcha_present env \<or> cf_wrapper_present env"
  shows "fst (try_block env x w) = Inl AttributeError
       \<and> fst (scrape env x v) = Inl NameError
       \<and> new_events w (snd (scrape env x w)) =
           map Head (snd (normalize_url (head env) x)) @ setup_events env w
           @ [Goto (fst (normalize_url (head env) x)), WaitForFunction, EvaluateScroll, Sleep]
       \<and> EvaluateCaptcha \<notin> set (new_events v (snd (scrape env x v)))
       \<and> EvaluateCloudflare \<notin> set (new_events v (snd (scrape env x v)))
       \<and> (fails env EvaluateCaptcha = None
            \<and> (captcha_present env \<or> fails env EvaluateCloudflare = None)
          \<longrightarrow> fst (handle_challenges env w') =
                Inl (ScrapingError
                       (if captcha_present env then ''CAPTCHA detected''
                        else ''Cloudflare protection detected'') (page_url env) None))"
proof -
  let ?u = "fst (normalize_url (head env) x)"
  let ?probed = "snd (normalize_url (head env) x)"
  let ?w0 = "w\<lparr>trace := trace w @ map Head ?probed\<rparr>"
  have nv: "navigate env ?u (opened env ?w0)
              = (Inr status, (opened env ?w0)\<lparr>trace := trace (opened env ?w0) @ [Goto ?u]\<rparr>)"
    using navigate_response [OF assms(2)] .
  have ab: "handle_anti_bot env ((opened env ?w0)\<lparr>trace := trace (opened env ?w0) @ [Goto ?u]\<rparr>)
              = (Inl AttributeError,
                 (opened env ?w0)\<lparr>trace := trace (opened env ?w0)
                    @ [Goto ?u, WaitForFunction, EvaluateScroll, Sleep]\<rparr>)"
    using handle_anti_bot_cookie_popups [OF assms(4) assms(5) assms(6)] by simp
  have tb: "try_block env x w
              = (Inl AttributeError,
                 (opened env ?w0)\<lparr>trace := trace (opened env ?w0)
                    @ [Goto ?u, WaitForFunction, EvaluateScroll, Sleep]\<rparr>)"
    using assms(3) nv ab by (simp add: try_block_opened [OF assms(1)] io_bind_def)
  have A: "fst (try_block env x w) = Inl AttributeError" using tb by simp
  have B: "fst (scrape env x v) = Inl NameError" by (simp add: scrape_unfold)
  have C: "new_events w (snd (scrape env x w)) =
           map Head ?probed @ setup_events env w
           @ [Goto ?u, WaitForFunction, EvaluateScroll, Sleep]"
    using tb by (simp add: scrape_unfold new_events_opened)
  obtain evs where evs: "new_events v (snd (scrape env x v)) = map Head ?probed @ evs"
      "list_all (\<lambda>ev. ev \<noteq> EvaluateCaptcha \<and> ev \<noteq> EvaluateCloudflare) evs"
    using scrape_events
      [of "\<lambda>ev. ev \<noteq> EvaluateCaptcha \<and> ev \<noteq> EvaluateCloudflare" v env x]
    by auto
  have D: "EvaluateCaptcha \<notin> set (new_events v (snd (scrape env x v)))"
    and E: "EvaluateCloudflare \<notin> set (new_events v (snd (scrape env x v)))"
    using evs by (auto simp: list_all_iff)
  have F: "fst (handle_challenges env w') =
                Inl (ScrapingError
                       (if captcha_present env then ''CAPTCHA detected''
                        else ''Cloudflare protection detected'') (page_url env) None)"
    if "fails env EvaluateCaptcha = None"
      and "captcha_present env \<or> fails env EvaluateCloudflare = None"
    using handle_challenges_found [OF that assms(7)] .
  show ?thesis using A B C D E F by blast
qed

theorem C9_challenge_witness:
  "page_opens ((env0 (\<lambda>_. Response 200))\<lparr>captcha_present := True,
       page_url := ''https://example.com/login''\<rparr>) with_browser
   \<and> goto ((env0 (\<lambda>_. Response 200))\<lparr>captcha_present := True,
       page_url := ''https://example.com/login''\<rparr>) ''https://example.com'' = Response 200
   \<and> (200::int) < 400
   \<and> captcha_present ((env0 (\<lambda>_. Response 200))\<lparr>captcha_present := True,
       page_url := ''https://example.com/login''\<rparr>)
   \<and> fst (handle_challenges ((env0 (\<lambda>_. Response 200))\<lparr>captcha_present := True,
       page_url := ''https://example.com/login''\<rparr>) with_browser)
       = Inl (ScrapingError ''CAPTCHA detected'' ''https://example.com/login'' None)
   \<and> fst (try_block ((env0 (\<lambda>_. Response 200))\<lparr>captcha_present := True,
       page_url := ''https://example.com/login''\<rparr>) ''https://example.com'' with_browser)
       = Inl AttributeError
   \<and> fst (scrape ((env0 (\<lambda>_. Response 200))\<lparr>captcha_present := True,
       page_url := ''https://example.com/login''\<rparr>) ''https://example.com'' with_browser)
       = Inl NameError
   \<and> drop 5 (new_events with_browser
        (snd (scrape ((env0 (\<lambda>_. Response 200))\<lparr>captcha_present := True,
           page_url := ''https://example.com/login''\<rparr>) ''https://example.com''
           with_browser)))
       = [Goto ''https://example.com'', WaitForFunction, EvaluateScroll, Sleep]
   \<and> EvaluateCaptcha \<notin> set (new_events with_browser
        (snd (scrape ((env0 (\<lambda>_. Response 200))\<lparr>captcha_present := True,
           page_url := ''https://example.com/login''\<rparr>) ''https://example.com''
           with_browser)))"
proof -
  let ?env = "(env0 (\<lambda>_. Response 200))\<lparr>captcha_present := True,
       page_url := ''https://example.com/login''\<rparr>"
  have n: "fst (normalize_url (head ?env) ''https://example.com'') = ''https://example.com''"
    by code_simp
  have n': "snd (normalize_url (head ?env) ''https://example.com'') = []" by code_simp
  have a: "page_opens ?env with_browser" by code_simp
  have b: "goto ?env ''https://example.com'' = Response 200" by code_simp
  have b': "goto ?env (fst (normalize_url (head ?env) ''https://example.com'')) = Response 200"
    using b n by simp
  have c: "(200::int) < 400" by simp
  have f1: "fails ?env WaitForFunction = None" by code_simp
  have f2: "fails ?env EvaluateScroll = None" by code_simp
  have f3: "fails ?env Sleep = None" by code_simp
  have f4: "fails ?env EvaluateCaptcha = None" by code_simp
  have e: "captcha_present ?env" by code_simp
  have e': "captcha_present ?env \<or> cf_wrapper_present ?env" using e by simp
  have e'': "captcha_present ?env \<or> fails ?env EvaluateCloudflare = None" using e by simp
  have g: "page_url ?env = ''https://example.com/login''" by code_simp
  have l: "length (setup_events ?env with_browser) = 5" by (simp add: setup_events_def)
  have k: "fst (try_block ?env ''https://example.com'' with_browser) = Inl AttributeError
      \<and> fst (scrape ?env ''https://example.com'' with_browser) = Inl NameError
      \<and> new_events with_browser (snd (scrape ?env ''https://example.com'' with_browser)) =
           map Head (snd (normalize_url (head ?env) ''https://example.com''))
           @ setup_events ?env with_browser
           @ [Goto (fst (normalize_url (head ?env) ''https://example.com'')),
              WaitForFunction, EvaluateScroll, Sleep]
      \<and> EvaluateCaptcha \<notin> set (new_events with_browser
           (snd (scrape ?env ''https://example.com'' with_browser)))
      \<and> fst (handle_challenges ?env with_browser) =
                Inl (ScrapingError
                       (if captcha_present ?env then ''CAPTCHA detected''
                        else ''Cloudflare protection detected'') (page_url ?env) None)"
    using C9_challenge_check_not_reached [OF a b' c f1 f2 f3 e',
        where v = with_browser and w' = with_browser] f4 e''
    by blast
  have k1: "fst (try_block ?env ''https://example.com'' with_browser) = Inl AttributeError"
    and k2: "fst (scrape ?env ''https://example.com'' with_browser) = Inl NameError"
    and k4: "EvaluateCaptcha \<notin> set (new_events with_browser
           (snd (scrape ?env ''https://example.com'' with_browser)))"
    using k by blast+
  have k3: "drop 5 (new_events with_browser
                (snd (scrape ?env ''https://example.com'' with_browser)))
              = [Goto ''https://example.com'', WaitForFunction, EvaluateScroll, Sleep]"
    using k l n n' by simp
  have k5: "fst (handle_challenges ?env with_browser)
              = Inl (ScrapingError ''CAPTCHA detected'' ''https://example.com/login'' None)"
    using k e g by simp
  show ?thesis
    using a b c e k1 k2 k3 k4 k5 by blast
qed

end
